theory Spec2Isabelle
  imports Complex_Main "HOL-Library.Log_Nat" "HOL-Library.Char_ord" "HOL-Library.List_Lexorder"
begin

section \<open>Python values\<close>

text \<open>
  The dashboard script \<^verbatim>\<open>app.py\<close> reads three wide CSV tables with pandas, cleans
  them and joins them. This theory embeds the number parser \<^verbatim>\<open>parse_number\<close>, the
  pipeline \<^verbatim>\<open>load_and_process_data\<close> and the part of the script that consumes its
  result.

  A Python \<^verbatim>\<open>float\<close> is an IEEE binary64 value. It is modelled by its exact value:
  \<open>Fin r\<close> for a finite double of rational value \<open>r\<close>, the two infinities and NaN.
  The two zeros are one value \<open>Fin 0\<close>: the script never divides by a cell value,
  never prints its sign and compares it only by \<^verbatim>\<open><\<close>, \<^verbatim>\<open>>\<close> and \<^verbatim>\<open>==\<close>, which do
  not tell \<^verbatim>\<open>-0.0\<close> from \<^verbatim>\<open>0.0\<close>.
\<close>

datatype pyfloat = NaN | PInf | NInf | Fin rat

datatype py_error = ValueError | OverflowError | StreamlitAPIException

text \<open>
  Rounding of the non-negative fraction \<open>a / q\<close> to the nearest double, ties to even.
  \<open>e\<close> is the binary exponent of the fraction, \<open>u\<close> the exponent of the unit in the
  last place (never below that of the subnormals, \<open>-1074\<close>), \<open>m\<close> the integer
  significand after rounding, at most \<open>2 ^ 53 = 9007199254740992\<close>. The result
  \<open>m * 2 ^ u\<close> overflows when it reaches \<open>2 ^ 1024\<close>, that is when \<open>u\<close> is above 971
  or \<open>u\<close> is 971 and \<open>m\<close> is \<open>2 ^ 53\<close>.
\<close>

definition frac_ge_pow2 :: "int \<Rightarrow> int \<Rightarrow> int \<Rightarrow> bool" where
  "frac_ge_pow2 a q e = (if 0 \<le> e then q * 2 ^ nat e \<le> a else q \<le> a * 2 ^ nat (- e))"

definition binary_exponent :: "int \<Rightarrow> int \<Rightarrow> int" where
  "binary_exponent a q =
     (let e0 = bitlen a - bitlen q in if frac_ge_pow2 a q e0 then e0 else e0 - 1)"

definition round_half_even :: "int \<Rightarrow> int \<Rightarrow> int" where
  "round_half_even n d =
     (let f = n div d; r = n mod d
      in if 2 * r < d then f else if d < 2 * r then f + 1 else if even f then f else f + 1)"

definition pow2 :: "int \<Rightarrow> rat" where
  "pow2 u = (if 0 \<le> u then 2 ^ nat u else 1 / 2 ^ nat (- u))"

definition round_magnitude :: "int \<Rightarrow> int \<Rightarrow> rat option" where
  "round_magnitude a q =
     (let e = binary_exponent a q;
          u = max (e - 52) (- 1074);
          m = (if 0 \<le> u then round_half_even a (q * 2 ^ nat u)
               else round_half_even (a * 2 ^ nat (- u)) q)
      in if 971 < u \<or> (u = 971 \<and> 9007199254740992 \<le> m) then None
         else Some (of_int m * pow2 u))"

definition round_double :: "rat \<Rightarrow> pyfloat" where
  "round_double x =
     (case quotient_of x of (p, q) \<Rightarrow>
        if p = 0 then Fin 0
        else if 0 < p then (case round_magnitude p q of None \<Rightarrow> PInf | Some v \<Rightarrow> Fin v)
        else (case round_magnitude (- p) q of None \<Rightarrow> NInf | Some v \<Rightarrow> Fin (- v)))"

text \<open>\<^verbatim>\<open>float(i)\<close> for a Python \<^verbatim>\<open>int\<close>: correctly rounded, OverflowError when too large.\<close>

definition float_of_int :: "int \<Rightarrow> py_error + pyfloat" where
  "float_of_int i =
     (case round_double (of_int i) of Fin r \<Rightarrow> Inr (Fin r) | _ \<Rightarrow> Inl OverflowError)"

text \<open>\<^verbatim>\<open>x * y\<close> on floats (IEEE: NaN is contagious, infinity times zero is NaN).\<close>

fun float_sign :: "pyfloat \<Rightarrow> int" where
  "float_sign NaN = 0"
| "float_sign PInf = 1"
| "float_sign NInf = - 1"
| "float_sign (Fin r) = (if 0 < r then 1 else if r < 0 then - 1 else 0)"

fun float_mul :: "pyfloat \<Rightarrow> pyfloat \<Rightarrow> pyfloat" where
  "float_mul NaN y = NaN"
| "float_mul x NaN = NaN"
| "float_mul (Fin a) (Fin b) = round_double (a * b)"
| "float_mul x y =
     (let s = float_sign x * float_sign y
      in if s = 0 then NaN else if 0 < s then PInf else NInf)"

text \<open>Comparisons: every comparison with NaN is false.\<close>

fun float_less :: "pyfloat \<Rightarrow> pyfloat \<Rightarrow> bool" where
  "float_less NaN y = False"
| "float_less x NaN = False"
| "float_less (Fin a) (Fin b) = (a < b)"
| "float_less NInf y = (y \<noteq> NInf)"
| "float_less x PInf = (x \<noteq> PInf)"
| "float_less x y = False"

fun float_le :: "pyfloat \<Rightarrow> pyfloat \<Rightarrow> bool" where
  "float_le NaN y = False"
| "float_le x NaN = False"
| "float_le x y = (x = y \<or> float_less x y)"

section \<open>Strings and \<^verbatim>\<open>float(str)\<close>\<close>

text \<open>
  A Python \<^verbatim>\<open>str\<close> is modelled as a \<open>string\<close> whose characters are the code points
  0 to 255. \<^verbatim>\<open>str.strip()\<close> removes the characters for which \<^verbatim>\<open>str.isspace\<close> holds;
  in this range they are the code points 9 to 13, 28 to 32, 133 and 160.
\<close>

definition is_space_unicode :: "char \<Rightarrow> bool" where
  "is_space_unicode c =
     (c \<in> set [CHR 0x09, CHR 0x0A, CHR 0x0B, CHR 0x0C, CHR 0x0D, CHR 0x1C, CHR 0x1D,
               CHR 0x1E, CHR 0x1F, CHR 0x20, CHR 0x85, CHR 0xA0])"

definition is_space_ascii :: "char \<Rightarrow> bool" where
  "is_space_ascii c = (c \<in> set [CHR 0x09, CHR 0x0A, CHR 0x0B, CHR 0x0C, CHR 0x0D, CHR 0x20])"

definition strip_with :: "(char \<Rightarrow> bool) \<Rightarrow> string \<Rightarrow> string" where
  "strip_with sp s = rev (dropWhile sp (rev (dropWhile sp s)))"

definition py_strip :: "string \<Rightarrow> string" where
  "py_strip s = strip_with is_space_unicode s"

definition endswith :: "string \<Rightarrow> char \<Rightarrow> bool" where
  "endswith s c = (s \<noteq> [] \<and> last s = c)"

definition digit_of :: "char \<Rightarrow> int option" where
  "digit_of c =
     (let n = (of_char c :: int) in if 48 \<le> n \<and> n \<le> 57 then Some (n - 48) else None)"

definition is_digit :: "char \<Rightarrow> bool" where
  "is_digit c = (digit_of c \<noteq> None)"

definition digits_value :: "string \<Rightarrow> int" where
  "digits_value ds = foldl (\<lambda>a c. 10 * a + (case digit_of c of Some d \<Rightarrow> d | None \<Rightarrow> 0)) 0 ds"

definition ascii_lower :: "char \<Rightarrow> char" where
  "ascii_lower c =
     (let n = (of_char c :: nat) in if 65 \<le> n \<and> n \<le> 90 then char_of (n + 32) else c)"

text \<open>
  The grammar of a decimal literal, shared by Python and pandas: digits, an optional
  point and more digits (at least one digit in all), and an exponent that is taken only
  when it has a digit. The result is the exact value and the text left over.
\<close>

definition parse_sign :: "string \<Rightarrow> bool \<times> string" where
  "parse_sign s =
     (case s of [] \<Rightarrow> (False, [])
      | c # r \<Rightarrow> if c = CHR ''-'' then (True, r) else if c = CHR ''+'' then (False, r)
                 else (False, s))"

definition parse_exponent :: "string \<Rightarrow> int \<times> string" where
  "parse_exponent s =
     (case s of [] \<Rightarrow> (0, [])
      | c # r \<Rightarrow>
          if c = CHR ''e'' \<or> c = CHR ''E'' then
            (case parse_sign r of (neg, r') \<Rightarrow>
               let ds = takeWhile is_digit r'
               in if ds = [] then (0, s)
                  else ((if neg then - digits_value ds else digits_value ds),
                        dropWhile is_digit r'))
          else (0, s))"

definition scale10 :: "int \<Rightarrow> int \<Rightarrow> rat" where
  "scale10 m k = (if 0 \<le> k then of_int m * 10 ^ nat k else of_int m / 10 ^ nat (- k))"

definition parse_decimal :: "string \<Rightarrow> (rat \<times> string) option" where
  "parse_decimal s =
     (let ip = takeWhile is_digit s; r1 = dropWhile is_digit s;
          has_point = (r1 \<noteq> [] \<and> hd r1 = CHR ''.'');
          fp = (if has_point then takeWhile is_digit (tl r1) else []);
          r2 = (if has_point then dropWhile is_digit (tl r1) else r1)
      in if ip = [] \<and> fp = [] then None
         else (case parse_exponent r2 of (ex, r3) \<Rightarrow>
                 Some (scale10 (digits_value (ip @ fp)) (ex - int (length fp)), r3)))"

text \<open>
  \<^verbatim>\<open>float(s)\<close> for a \<^verbatim>\<open>str\<close>, after CPython's \<^verbatim>\<open>PyFloat_FromString\<close>: non-ASCII
  spaces become blanks and any other non-ASCII character is not part of a number;
  underscores are allowed between two digits only and are dropped; blanks around the
  literal are dropped; then a signed decimal literal, or \<^verbatim>\<open>inf\<close>, \<^verbatim>\<open>infinity\<close>,
  \<^verbatim>\<open>nan\<close> in any case, must fill the whole text. The value is correctly rounded; a
  literal too large gives an infinity.
\<close>

definition to_ascii_space :: "char \<Rightarrow> char" where
  "to_ascii_space c =
     (if (of_char c :: nat) < 127 then c
      else if is_space_unicode c then CHR '' '' else CHR ''?'')"

fun underscores_ok :: "char \<Rightarrow> string \<Rightarrow> bool" where
  "underscores_ok prev [] = (prev \<noteq> CHR ''_'')"
| "underscores_ok prev (c # cs) =
     (if c = CHR ''_'' then is_digit prev \<and> underscores_ok c cs
      else (prev = CHR ''_'' \<longrightarrow> is_digit c) \<and> underscores_ok c cs)"

definition negate :: "bool \<Rightarrow> pyfloat \<Rightarrow> pyfloat" where
  "negate neg x =
     (if neg then (case x of Fin r \<Rightarrow> Fin (- r) | PInf \<Rightarrow> NInf | NInf \<Rightarrow> PInf | NaN \<Rightarrow> NaN)
      else x)"

definition py_float_literal :: "string \<Rightarrow> py_error + pyfloat" where
  "py_float_literal s =
     (case parse_sign s of (neg, r) \<Rightarrow>
        (case parse_decimal r of
           Some (v, rest) \<Rightarrow>
             if rest = [] then Inr (negate neg (round_double v)) else Inl ValueError
         | None \<Rightarrow>
             (let w = map ascii_lower r
              in if w = ''inf'' \<or> w = ''infinity'' then Inr (negate neg PInf)
                 else if w = ''nan'' then Inr NaN
                 else Inl ValueError)))"

definition py_float :: "string \<Rightarrow> py_error + pyfloat" where
  "py_float s =
     (let t = map to_ascii_space s
      in if CHR ''_'' \<in> set t \<and> \<not> underscores_ok (CHR 0x00) t then Inl ValueError
         else py_float_literal (strip_with is_space_ascii (filter (\<lambda>c. c \<noteq> CHR ''_'') t)))"

section \<open>The number parser\<close>

text \<open>
  A cell of a loaded table is a Python \<^verbatim>\<open>int\<close>, a \<^verbatim>\<open>float\<close> (an empty CSV field is
  the float NaN) or a \<^verbatim>\<open>str\<close>.
\<close>

datatype cell = IntC int | FloatC pyfloat | StrC string

definition is_missing :: "cell \<Rightarrow> bool" where
  "is_missing c = (c = FloatC NaN)"

text \<open>
  \<^verbatim>\<open>parse_number\<close>, branch by branch. The three suffix branches call \<^verbatim>\<open>float\<close>
  outside any \<^verbatim>\<open>try\<close>, so its ValueError leaves the function; only the last branch
  catches it.
\<close>

definition suffix_branch :: "string \<Rightarrow> rat \<Rightarrow> py_error + pyfloat" where
  "suffix_branch v k =
     (case py_float (butlast v) of Inl e \<Rightarrow> Inl e | Inr x \<Rightarrow> Inr (float_mul x (Fin k)))"

fun parse_number :: "cell \<Rightarrow> py_error + pyfloat" where
  "parse_number (FloatC f) = Inr f"
| "parse_number (IntC i) = float_of_int i"
| "parse_number (StrC s) =
     (if s = [] then Inr NaN
      else let v = py_strip s
           in if endswith v (CHR ''k'') then suffix_branch v 1000
              else if endswith v (CHR ''M'') then suffix_branch v 1000000
              else if endswith v (CHR ''B'') then suffix_branch v 1000000000
              else (case py_float v of Inl _ \<Rightarrow> Inr NaN | Inr x \<Rightarrow> Inr x))"

section \<open>Wide tables and the pandas operations\<close>

text \<open>
  A wide table is a frame as \<^verbatim>\<open>pd.read_csv\<close> returns it for the three input files:
  the first column is \<^verbatim>\<open>country\<close> and holds text (NaN for an empty field), the
  other columns are the year columns, with their headers as read. The cells of a row
  are listed in column order. Finding and reading the files, and the Streamlit cache
  around the pipeline, are outside the model: it starts from the three frames.
\<close>

record wide_row =
  w_country :: "string option"
  w_cells :: "cell list"

record wide_table =
  year_columns :: "string list"
  table_rows :: "wide_row list"

text \<open>
  A frame is rectangular and \<^verbatim>\<open>read_csv\<close> gives its columns distinct labels.
  \<open>melt\<close> below reads a row by column index, which is meaningful on such a frame.
\<close>

definition wf_table :: "wide_table \<Rightarrow> bool" where
  "wf_table t =
     (distinct (year_columns t)
      \<and> list_all (\<lambda>r. length (w_cells r) = length (year_columns t)) (table_rows t))"

text \<open>
  \<^verbatim>\<open>df.ffill(axis=1)\<close> fills every row from left to right over all its columns, the
  country column included: pandas transposes the frame, fills down each column of
  Python objects, and transposes back. \<open>prev\<close> is the last value seen to the left, NaN
  when there is none yet.
\<close>

fun ffill_cells :: "cell \<Rightarrow> cell list \<Rightarrow> cell list" where
  "ffill_cells prev [] = []"
| "ffill_cells prev (c # cs) =
     (if is_missing c then prev # ffill_cells prev cs else c # ffill_cells c cs)"

definition country_cell :: "wide_row \<Rightarrow> cell" where
  "country_cell r = (case w_country r of None \<Rightarrow> FloatC NaN | Some s \<Rightarrow> StrC s)"

definition ffill_row :: "wide_row \<Rightarrow> wide_row" where
  "ffill_row r = r\<lparr>w_cells := ffill_cells (country_cell r) (w_cells r)\<rparr>"

definition ffill :: "wide_table \<Rightarrow> wide_table" where
  "ffill t = t\<lparr>table_rows := map ffill_row (table_rows t)\<rparr>"

text \<open>
  \<^verbatim>\<open>df.melt(id_vars=["country"], var_name="year", ...)\<close>: one record per year column
  and row, column by column, the rows of one column in table order.
\<close>

record melted_record =
  r_country :: "string option"
  r_year :: string
  r_value :: cell

definition melt :: "wide_table \<Rightarrow> melted_record list" where
  "melt t =
     concat (map (\<lambda>j. map (\<lambda>r. \<lparr>r_country = w_country r, r_year = year_columns t ! j,
                                  r_value = w_cells r ! j\<rparr>) (table_rows t))
                 [0..<length (year_columns t)])"

text \<open>
  \<^verbatim>\<open>pd.to_numeric(..., errors='coerce')\<close> on a column of Python objects: a number is
  kept, and a text is read by pandas' own parser: blanks, a sign, a decimal literal,
  blanks; or \<^verbatim>\<open>inf\<close>, \<^verbatim>\<open>infinity\<close> with an optional sign and nothing around. No
  underscores, and \<^verbatim>\<open>nan\<close> or any other text gives NaN. Numeric columns are modelled
  by the values of their entries as doubles, whether pandas stores them as \<^verbatim>\<open>int64\<close>
  or \<^verbatim>\<open>float64\<close>, and the value of a literal is taken correctly rounded. pandas'
  parser collects the digits in a double and scales it by a power of ten that is
  itself a double, so it returns this value when the digits, at most 15, and the
  power of ten, at most \<open>10 ^ 22\<close>, are exact doubles, and may return a neighbouring
  double otherwise (for \<^verbatim>\<open>+3e23\<close>, or for a literal of more than 15 digits). The
  literals evaluated in the statements below are of the first kind: year headers,
  short decimal cells and the name \<^verbatim>\<open>1e3\<close>.
\<close>

definition pd_to_numeric_str :: "string \<Rightarrow> pyfloat" where
  "pd_to_numeric_str s =
     (case parse_sign (dropWhile is_space_ascii s) of (neg, r) \<Rightarrow>
        (case parse_decimal r of
           Some (v, rest) \<Rightarrow>
             if dropWhile is_space_ascii rest = [] then negate neg (round_double v) else NaN
         | None \<Rightarrow>
             (case parse_sign s of (neg', r') \<Rightarrow>
                let w = map ascii_lower r'
                in if w = ''inf'' \<or> w = ''infinity'' then negate neg' PInf else NaN)))"

fun pd_to_numeric :: "cell \<Rightarrow> pyfloat" where
  "pd_to_numeric (FloatC f) = f"
| "pd_to_numeric (IntC i) = round_double (of_int i)"
| "pd_to_numeric (StrC s) = pd_to_numeric_str s"

text \<open>\<^verbatim>\<open>Series.apply(parse_number)\<close>: the first exception ends the whole call.\<close>

fun apply_parse_number :: "cell list \<Rightarrow> py_error + pyfloat list" where
  "apply_parse_number [] = Inr []"
| "apply_parse_number (c # cs) =
     (case parse_number c of
        Inl e \<Rightarrow> Inl e
      | Inr v \<Rightarrow> (case apply_parse_number cs of Inl e \<Rightarrow> Inl e | Inr vs \<Rightarrow> Inr (v # vs)))"

section \<open>The pipeline\<close>

record tidy_record =
  t_country :: "string option"
  t_year :: pyfloat
  t_value :: pyfloat

definition tidy_record_of :: "melted_record \<Rightarrow> pyfloat \<Rightarrow> tidy_record" where
  "tidy_record_of m v =
     \<lparr>t_country = r_country m, t_year = pd_to_numeric_str (r_year m), t_value = v\<rparr>"

text \<open>
  Lines 60 to 84 for one table: forward fill, melt, the year made numeric, the value
  parsed. Population and GNI go through \<^verbatim>\<open>parse_number\<close>, life expectancy through
  \<^verbatim>\<open>pd.to_numeric\<close>.
\<close>

definition tidy_parsed :: "wide_table \<Rightarrow> py_error + tidy_record list" where
  "tidy_parsed t =
     (let ms = melt (ffill t)
      in case apply_parse_number (map r_value ms) of
           Inl e \<Rightarrow> Inl e
         | Inr vs \<Rightarrow> Inr (map2 tidy_record_of ms vs))"

definition tidy_coerced :: "wide_table \<Rightarrow> tidy_record list" where
  "tidy_coerced t = map (\<lambda>m. tidy_record_of m (pd_to_numeric (r_value m))) (melt (ffill t))"

definition min_year :: pyfloat where "min_year = Fin 1990"
definition max_year :: pyfloat where "max_year = Fin 2023"

definition year_filter :: "tidy_record list \<Rightarrow> tidy_record list" where
  "year_filter ts = filter (\<lambda>r. float_le min_year (t_year r) \<and> float_le (t_year r) max_year) ts"

text \<open>
  \<^verbatim>\<open>pd.merge(left, right, on=["country", "year"], how="inner")\<close>: every pair of a left
  and a right row with the same country and the same year, in the order of the left
  rows, the matches of one left row in the order of the right rows. This is the merge
  of two frames whose country columns both hold text, as in a table with a country
  name in some row. pandas compares the types of the key columns first and raises a
  ValueError when one country column holds text and the other only numbers, as it
  can after reading a table without any country name (no row, or no name in any
  row). The column types are not part of a \<open>wide_table\<close>: for such a table \<open>merge1\<close>
  and \<open>merge2\<close> pair the rows as written here, where the program may stop with that
  error.
\<close>

record merged1_record =
  m_country :: "string option"
  m_year :: pyfloat
  m_population :: pyfloat
  m_life_expectancy :: pyfloat

record merged_record =
  f_country :: "string option"
  f_year :: pyfloat
  f_population :: pyfloat
  f_life_expectancy :: pyfloat
  f_gni_per_capita :: pyfloat

definition merge1 :: "tidy_record list \<Rightarrow> tidy_record list \<Rightarrow> merged1_record list" where
  "merge1 pop life =
     concat (map (\<lambda>p. map (\<lambda>l. \<lparr>m_country = t_country p, m_year = t_year p,
                                  m_population = t_value p, m_life_expectancy = t_value l\<rparr>)
                          (filter (\<lambda>l. t_country l = t_country p \<and> t_year l = t_year p) life))
                 pop)"

definition merge2 :: "merged1_record list \<Rightarrow> tidy_record list \<Rightarrow> merged_record list" where
  "merge2 merged1 gni =
     concat (map (\<lambda>m. map (\<lambda>g. \<lparr>f_country = m_country m, f_year = m_year m,
                                  f_population = m_population m,
                                  f_life_expectancy = m_life_expectancy m,
                                  f_gni_per_capita = t_value g\<rparr>)
                          (filter (\<lambda>g. t_country g = m_country m \<and> t_year g = m_year m) gni))
                 merged1)"

definition dropna :: "merged_record list \<Rightarrow> merged_record list" where
  "dropna ms =
     filter (\<lambda>m. f_country m \<noteq> None \<and> f_year m \<noteq> NaN \<and> f_population m \<noteq> NaN
                 \<and> f_life_expectancy m \<noteq> NaN \<and> f_gni_per_capita m \<noteq> NaN) ms"

definition positive_filter :: "merged_record list \<Rightarrow> merged_record list" where
  "positive_filter ms =
     filter (\<lambda>m. float_less (Fin 0) (f_population m) \<and> float_less (Fin 0) (f_life_expectancy m)
                 \<and> float_less (Fin 0) (f_gni_per_capita m)) ms"

text \<open>
  \<^verbatim>\<open>final_df["year"].astype(int)\<close> truncates towards zero; on NaN or an infinity
  pandas raises (a ValueError).
\<close>

record final_record =
  country :: "string option"
  year :: int
  population :: pyfloat
  life_expectancy :: pyfloat
  gni_per_capita :: pyfloat

definition py_trunc :: "rat \<Rightarrow> int" where
  "py_trunc r = (if 0 \<le> r then \<lfloor>r\<rfloor> else - \<lfloor>- r\<rfloor>)"

definition final_of :: "merged_record \<Rightarrow> rat \<Rightarrow> final_record" where
  "final_of m y =
     \<lparr>country = f_country m, year = py_trunc y, population = f_population m,
      life_expectancy = f_life_expectancy m, gni_per_capita = f_gni_per_capita m\<rparr>"

fun astype_int :: "merged_record list \<Rightarrow> py_error + final_record list" where
  "astype_int [] = Inr []"
| "astype_int (m # ms) =
     (case f_year m of
        Fin y \<Rightarrow> (case astype_int ms of Inl e \<Rightarrow> Inl e | Inr rs \<Rightarrow> Inr (final_of m y # rs))
      | _ \<Rightarrow> Inl ValueError)"

definition load_and_process_data ::
  "wide_table \<Rightarrow> wide_table \<Rightarrow> wide_table \<Rightarrow> py_error + final_record list" where
  "load_and_process_data population_df life_expectancy_df gni_df =
     (case tidy_parsed population_df of
        Inl e \<Rightarrow> Inl e
      | Inr pop_tidy \<Rightarrow>
          (let life_tidy = tidy_coerced life_expectancy_df
           in case tidy_parsed gni_df of
                Inl e \<Rightarrow> Inl e
              | Inr gni_tidy \<Rightarrow>
                  (let pop_filtered = year_filter pop_tidy;
                       life_filtered = year_filter life_tidy;
                       gni_filtered = year_filter gni_tidy;
                       merged1 = merge1 pop_filtered life_filtered;
                       final_df = merge2 merged1 gni_filtered
                   in astype_int (positive_filter (dropna final_df)))))"

section \<open>The script around the pipeline\<close>

text \<open>
  The script after the call of the pipeline (lines 123 to 287). The widgets return what
  the user chose; what the script shows is the list of its calls that report or draw.
  \<^verbatim>\<open>st.stop()\<close> ends the run. Titles, \<^verbatim>\<open>st.write\<close> texts and the axis settings of
  a chart are left out, as are the headers of the sidebar, the progress bar, the
  country list at the end and the \<^verbatim>\<open>st.write\<close> reports inside the pipeline.
\<close>

definition unique :: "'a list \<Rightarrow> 'a list" where
  "unique xs = rev (remdups (rev xs))"

definition years :: "final_record list \<Rightarrow> int list" where
  "years data = sort (unique (map year data))"

definition countries :: "final_record list \<Rightarrow> string list" where
  "countries data = sort (unique (List.map_filter country data))"

record ui_inputs =
  selected_year :: int
  selected_countries :: "string list"
  show_data_table :: bool
  play_animation :: bool

datatype ui_event =
    StError string
  | StStop
  | StInfo
  | StWarning
  | PlotlyChart int "final_record list"
  | DataFrame "final_record list"
  | StSuccess string

definition select_data :: "final_record list \<Rightarrow> int \<Rightarrow> string list \<Rightarrow> final_record list" where
  "select_data data y sel =
     filter (\<lambda>r. year r = y \<and> (case country r of None \<Rightarrow> False | Some c \<Rightarrow> c \<in> set sel)) data"

definition main_visualization :: "final_record list \<Rightarrow> ui_inputs \<Rightarrow> ui_event list" where
  "main_visualization data ui =
     (if selected_countries ui \<noteq> [] then
        (let filtered_data = select_data data (selected_year ui) (selected_countries ui)
         in if filtered_data \<noteq> [] then
              PlotlyChart (selected_year ui) filtered_data
                # (if show_data_table ui then [DataFrame filtered_data] else [])
            else [StWarning])
      else [StInfo])"

definition animation :: "final_record list \<Rightarrow> ui_inputs \<Rightarrow> ui_event list" where
  "animation data ui =
     (if selected_countries ui \<noteq> [] \<and> play_animation ui then
        concat (map (\<lambda>y. let year_data = select_data data y (selected_countries ui)
                         in if year_data \<noteq> [] then [PlotlyChart y year_data] else [])
                    (years data))
          @ [StSuccess ''Animation complete!'']
      else [])"

text \<open>
  The year slider (lines 137 to 143) is created with \<^verbatim>\<open>min_value=min(years)\<close> and
  \<^verbatim>\<open>max_value=max(years)\<close>. Streamlit refuses a slider whose two bounds are equal, so
  with a single year in the data the call raises and the script ends there, before
  any chart. Otherwise it returns the year the user chose, \<open>selected_year\<close>.
  \<^verbatim>\<open>min\<close> and \<^verbatim>\<open>max\<close> of an empty list raise a ValueError.
\<close>

fun year_slider :: "int list \<Rightarrow> int \<Rightarrow> py_error + int" where
  "year_slider [] chosen = Inl ValueError"
| "year_slider (y # ys) chosen =
     (if fold min ys y = fold max ys y then Inl StreamlitAPIException else Inr chosen)"

definition script :: "final_record list \<Rightarrow> ui_inputs \<Rightarrow> py_error + ui_event list" where
  "script data ui =
     (if length data = 0 then Inr [StError ''No data available after processing!'', StStop]
      else (case year_slider (years data) (selected_year ui) of
              Inl e \<Rightarrow> Inl e
            | Inr y \<Rightarrow> Inr (main_visualization data ui @ animation data ui)))"

definition app :: "wide_table \<Rightarrow> wide_table \<Rightarrow> wide_table \<Rightarrow> ui_inputs \<Rightarrow> py_error + ui_event list" where
  "app population_df life_expectancy_df gni_df ui =
     (case load_and_process_data population_df life_expectancy_df gni_df of
        Inl e \<Rightarrow> Inl e
      | Inr data \<Rightarrow> script data ui)"

definition is_chart :: "ui_event \<Rightarrow> bool" where
  "is_chart ev = (case ev of PlotlyChart y d \<Rightarrow> True | _ \<Rightarrow> False)"

section \<open>Example tables\<close>

text \<open>
  Small inputs on which the definitions are run: Albania has no population figure for
  1991, Chad is missing from the life expectancy table, and 1989 is outside the range.
\<close>

definition example_population :: wide_table where
  "example_population =
     \<lparr>year_columns = [''1989'', ''1990'', ''1991''],
      table_rows =
        [\<lparr>w_country = Some ''Albania'', w_cells = [StrC ''3.29M'', StrC ''3.28M'', FloatC NaN]\<rparr>,
         \<lparr>w_country = Some ''Chad'', w_cells = [StrC ''5.8M'', StrC ''5.96M'', StrC ''6.2M'']\<rparr>]\<rparr>"

definition example_life :: wide_table where
  "example_life =
     \<lparr>year_columns = [''1989'', ''1990'', ''1991''],
      table_rows =
        [\<lparr>w_country = Some ''Albania'',
          w_cells = [FloatC (Fin (145 / 2)), FloatC (Fin 73), IntC 74]\<rparr>]\<rparr>"

definition example_gni :: wide_table where
  "example_gni =
     \<lparr>year_columns = [''1989'', ''1990'', ''1991''],
      table_rows =
        [\<lparr>w_country = Some ''Chad'', w_cells = [IntC 900, IntC 950, StrC ''1k'']\<rparr>,
         \<lparr>w_country = Some ''Albania'', w_cells = [StrC ''4.1k'', IntC 4200, StrC ''4.3k'']\<rparr>]\<rparr>"

definition example_result :: "final_record list" where
  "example_result =
     [\<lparr>country = Some ''Albania'', year = 1990, population = Fin 3280000,
       life_expectancy = Fin 73, gni_per_capita = Fin 4200\<rparr>,
      \<lparr>country = Some ''Albania'', year = 1991, population = Fin 3280000,
       life_expectancy = Fin 74, gni_per_capita = Fin 4300\<rparr>]"

definition example_life_zero :: wide_table where
  "example_life_zero =
     \<lparr>year_columns = [''1989'', ''1990'', ''1991''],
      table_rows =
        [\<lparr>w_country = Some ''Albania'', w_cells = [IntC 0, FloatC (Fin 0), StrC ''0.0'']\<rparr>,
         \<lparr>w_country = Some ''Chad'', w_cells = [IntC 0, IntC 0, IntC 0]\<rparr>]\<rparr>"

definition example_wide :: wide_table where
  "example_wide =
     \<lparr>year_columns = [''1990'', ''1991'', ''1992''],
      table_rows = [\<lparr>w_country = Some ''A'', w_cells = [IntC 10, FloatC NaN, IntC 30]\<rparr>]\<rparr>"

definition example_tidy :: "tidy_record list" where
  "example_tidy =
     [\<lparr>t_country = Some ''A'', t_year = Fin 1990, t_value = Fin 10\<rparr>,
      \<lparr>t_country = Some ''A'', t_year = Fin 1991, t_value = Fin 10\<rparr>,
      \<lparr>t_country = Some ''A'', t_year = Fin 1992, t_value = Fin 30\<rparr>]"






text \<open>
  The end-to-end scenario: a table for the three countries and the years 1990 to 1992,
  in any order of rows and columns, whose cells all parse to a positive number.
\<close>

definition scenario_table :: "wide_table \<Rightarrow> bool" where
  "scenario_table t =
     (wf_table t
      \<and> set (year_columns t) = {''1990'', ''1991'', ''1992''}
      \<and> distinct (map w_country (table_rows t))
      \<and> set (map w_country (table_rows t))
          = {Some ''Afghanistan'', Some ''Albania'', Some ''Algeria''})"

definition valid_parsed :: "cell \<Rightarrow> bool" where
  "valid_parsed c = (case parse_number c of Inl e \<Rightarrow> False | Inr v \<Rightarrow> float_less (Fin 0) v)"

definition valid_coerced :: "cell \<Rightarrow> bool" where
  "valid_coerced c = float_less (Fin 0) (pd_to_numeric c)"

definition all_cells :: "(cell \<Rightarrow> bool) \<Rightarrow> wide_table \<Rightarrow> bool" where
  "all_cells P t = list_all (\<lambda>r. list_all P (w_cells r)) (table_rows t)"

definition scenario_population :: wide_table where
  "scenario_population =
     \<lparr>year_columns = [''1990'', ''1991'', ''1992''],
      table_rows =
        [\<lparr>w_country = Some ''Afghanistan'', w_cells = [StrC ''12.4M'', StrC ''13.3M'', StrC ''14.5M'']\<rparr>,
         \<lparr>w_country = Some ''Albania'', w_cells = [StrC ''3.29M'', StrC ''3.28M'', StrC ''3.25M'']\<rparr>,
         \<lparr>w_country = Some ''Algeria'', w_cells = [StrC ''25.5M'', StrC ''26.1M'', StrC ''26.7M'']\<rparr>]\<rparr>"

definition scenario_life :: wide_table where
  "scenario_life =
     \<lparr>year_columns = [''1990'', ''1991'', ''1992''],
      table_rows =
        [\<lparr>w_country = Some ''Albania'',
          w_cells = [FloatC (Fin (147 / 2)), FloatC (Fin 73), FloatC (Fin (293 / 4))]\<rparr>,
         \<lparr>w_country = Some ''Algeria'', w_cells = [IntC 70, IntC 71, IntC 71]\<rparr>,
         \<lparr>w_country = Some ''Afghanistan'',
          w_cells = [FloatC (Fin (107 / 2)), FloatC (Fin 54), FloatC (Fin (109 / 2))]\<rparr>]\<rparr>"

definition scenario_gni :: wide_table where
  "scenario_gni =
     \<lparr>year_columns = [''1992'', ''1990'', ''1991''],
      table_rows =
        [\<lparr>w_country = Some ''Algeria'', w_cells = [StrC ''8.1k'', StrC ''8.4k'', StrC ''8.2k'']\<rparr>,
         \<lparr>w_country = Some ''Afghanistan'', w_cells = [IntC 720, IntC 880, IntC 810]\<rparr>,
         \<lparr>w_country = Some ''Albania'', w_cells = [IntC 2900, StrC ''4.1k'', IntC 3000]\<rparr>]\<rparr>"

section \<open>The number parser: results\<close>

lemma parse_3_28M: "parse_number (StrC ''3.28M'') = Inr (Fin 3280000)"
  by code_simp

lemma parse_407k: "parse_number (StrC ''407k'') = Inr (Fin 407000)"
  by code_simp

lemma parse_2650: "parse_number (StrC ''2650'') = Inr (Fin 2650)"
  by code_simp

lemma parse_empty: "parse_number (StrC []) = Inr NaN"
  by simp

lemma parse_abc: "parse_number (StrC ''abc'') = Inr NaN"
  by code_simp

lemma parse_int_12345: "parse_number (IntC 12345) = Inr (Fin 12345)"
  by code_simp

lemma parse_407K: "parse_number (StrC ''407K'') = Inr NaN"
  by code_simp

lemma upper_K_is_no_suffix:
  "\<not> endswith (py_strip ''407K'') (CHR ''k'') \<and> py_float (py_strip ''407K'') = Inl ValueError"
  by code_simp


text \<open>
  C1. \<^verbatim>\<open>parse_number\<close> is to return a float or missing on every string and never
  to raise, also when the string ends in \<^verbatim>\<open>k\<close>, \<^verbatim>\<open>M\<close> or \<^verbatim>\<open>B\<close> and the text
  before the suffix is not a number. The code guards only the last branch: the suffix
  branches convert that text outside the \<^verbatim>\<open>try\<close>, and on \<^verbatim>\<open>"abck"\<close>, \<^verbatim>\<open>"k"\<close>
  and \<^verbatim>\<open>"Denmark"\<close> the ValueError of \<^verbatim>\<open>float\<close> leaves the function.
\<close>

theorem parse_number_suffix_raises:
  "parse_number (StrC ''abck'') = Inl ValueError
   \<and> parse_number (StrC ''k'') = Inl ValueError
   \<and> parse_number (StrC ''Denmark'') = Inl ValueError"
  by code_simp

text \<open>
  C2. The listed pairs: \<^verbatim>\<open>"3.28M"\<close> gives 3280000.0, \<^verbatim>\<open>"407k"\<close> gives 407000.0,
  \<^verbatim>\<open>"2650"\<close> gives 2650.0, the empty string and \<^verbatim>\<open>"abc"\<close> give missing, the
  integer 12345 gives 12345.0, and \<^verbatim>\<open>"407K"\<close> is not taken as a suffix: it goes to the
  direct conversion, which fails, and gives missing.
\<close>

theorem parse_number_examples:
  "parse_number (StrC ''3.28M'') = Inr (Fin 3280000)
   \<and> parse_number (StrC ''407k'') = Inr (Fin 407000)
   \<and> parse_number (StrC ''2650'') = Inr (Fin 2650)
   \<and> parse_number (StrC []) = Inr NaN
   \<and> parse_number (StrC ''abc'') = Inr NaN
   \<and> parse_number (IntC 12345) = Inr (Fin 12345)
   \<and> \<not> endswith (py_strip ''407K'') (CHR ''k'')
   \<and> py_float (py_strip ''407K'') = Inl ValueError
   \<and> parse_number (StrC ''407K'') = Inr NaN"
  using parse_3_28M parse_407k parse_2650 parse_empty parse_abc parse_int_12345 parse_407K
    upper_K_is_no_suffix
  by blast

section \<open>The pipeline: structure of the result\<close>

lemma float_less_zero_iff:
  "float_less (Fin 0) x \<longleftrightarrow> x = PInf \<or> (\<exists>r. x = Fin r \<and> 0 < r)"
  by (cases x) auto

lemma year_in_range:
  assumes "float_le min_year y" and "float_le y max_year"
  shows "\<exists>r. y = Fin r \<and> 1990 \<le> r \<and> r \<le> 2023"
  using assms by (cases y) (auto simp: min_year_def max_year_def)

lemma py_trunc_nonneg: "0 \<le> r \<Longrightarrow> py_trunc r = \<lfloor>r\<rfloor>"
  unfolding py_trunc_def by simp

lemma py_trunc_range:
  assumes "1990 \<le> r" and "r \<le> 2023"
  shows "1990 \<le> py_trunc r \<and> py_trunc r \<le> 2023"
proof -
  have "0 \<le> r" using assms by simp
  then have t: "py_trunc r = \<lfloor>r\<rfloor>" by (rule py_trunc_nonneg)
  have "(1990::int) \<le> \<lfloor>r\<rfloor>" using assms(1) by (simp add: le_floor_iff)
  moreover have "\<lfloor>r\<rfloor> \<le> (2023::int)" using assms(2) by (simp add: floor_le_iff)
  ultimately show ?thesis using t by simp
qed

lemma set_year_filter:
  "r \<in> set (year_filter ts) \<longleftrightarrow>
     r \<in> set ts \<and> float_le min_year (t_year r) \<and> float_le (t_year r) max_year"
  by (auto simp: year_filter_def)

lemma set_merge1:
  "m \<in> set (merge1 pop life) \<longleftrightarrow>
     (\<exists>p \<in> set pop. \<exists>l \<in> set life. t_country l = t_country p \<and> t_year l = t_year p
        \<and> m = \<lparr>m_country = t_country p, m_year = t_year p, m_population = t_value p,
                m_life_expectancy = t_value l\<rparr>)"
  by (auto simp: merge1_def)

lemma set_merge2:
  "f \<in> set (merge2 merged1 gni) \<longleftrightarrow>
     (\<exists>m \<in> set merged1. \<exists>g \<in> set gni. t_country g = m_country m \<and> t_year g = m_year m
        \<and> f = \<lparr>f_country = m_country m, f_year = m_year m, f_population = m_population m,
                f_life_expectancy = m_life_expectancy m, f_gni_per_capita = t_value g\<rparr>)"
  by (auto simp: merge2_def)

lemma set_dropna:
  "m \<in> set (dropna ms) \<longleftrightarrow>
     m \<in> set ms \<and> f_country m \<noteq> None \<and> f_year m \<noteq> NaN \<and> f_population m \<noteq> NaN
       \<and> f_life_expectancy m \<noteq> NaN \<and> f_gni_per_capita m \<noteq> NaN"
  by (auto simp: dropna_def)

lemma set_positive_filter:
  "m \<in> set (positive_filter ms) \<longleftrightarrow>
     m \<in> set ms \<and> float_less (Fin 0) (f_population m) \<and> float_less (Fin 0) (f_life_expectancy m)
       \<and> float_less (Fin 0) (f_gni_per_capita m)"
  by (auto simp: positive_filter_def)

lemma astype_int_sound:
  "astype_int ms = Inr rs \<Longrightarrow> r \<in> set rs \<Longrightarrow>
     \<exists>m \<in> set ms. \<exists>y. f_year m = Fin y \<and> r = final_of m y"
proof (induction ms arbitrary: rs)
  case Nil
  then show ?case by simp
next
  case (Cons m ms)
  then show ?case
    by (auto simp: final_of_def split: pyfloat.splits sum.splits)
qed

lemma astype_int_complete:
  "astype_int ms = Inr rs \<Longrightarrow> m \<in> set ms \<Longrightarrow> \<exists>y. f_year m = Fin y \<and> final_of m y \<in> set rs"
proof (induction ms arbitrary: rs)
  case Nil
  then show ?case by simp
next
  case (Cons a ms)
  then show ?case
    by (auto simp: final_of_def split: pyfloat.splits sum.splits)
qed

lemma astype_int_total:
  "(\<forall>m \<in> set ms. \<exists>y. f_year m = Fin y) \<Longrightarrow> \<exists>rs. astype_int ms = Inr rs \<and> length rs = length ms"
proof (induction ms)
  case Nil
  then show ?case by simp
next
  case (Cons m ms)
  then obtain y where "f_year m = Fin y" by auto
  moreover obtain rs where "astype_int ms = Inr rs" "length rs = length ms" using Cons by auto
  ultimately show ?case by simp
qed
lemma load_and_process_data_Inr:
  assumes "load_and_process_data pop life gni = Inr rs"
  shows "\<exists>P G. tidy_parsed pop = Inr P \<and> tidy_parsed gni = Inr G
           \<and> astype_int (positive_filter (dropna (merge2
                 (merge1 (year_filter P) (year_filter (tidy_coerced life)))
                 (year_filter G)))) = Inr rs"
  using assms by (auto simp: load_and_process_data_def Let_def split: sum.splits)

lemma final_record_origin:
  assumes "tidy_parsed pop = Inr P" and "tidy_parsed gni = Inr G"
    and "load_and_process_data pop life gni = Inr rs" and "r \<in> set rs"
  shows "\<exists>p \<in> set P. \<exists>l \<in> set (tidy_coerced life). \<exists>g \<in> set G. \<exists>y.
           t_country p = country r \<and> t_country l = country r \<and> t_country g = country r
           \<and> t_year p = Fin y \<and> t_year l = Fin y \<and> t_year g = Fin y
           \<and> 1990 \<le> y \<and> y \<le> 2023 \<and> year r = py_trunc y
           \<and> population r = t_value p \<and> life_expectancy r = t_value l
           \<and> gni_per_capita r = t_value g
           \<and> country r \<noteq> None \<and> t_value p \<noteq> NaN \<and> t_value l \<noteq> NaN \<and> t_value g \<noteq> NaN
           \<and> float_less (Fin 0) (t_value p) \<and> float_less (Fin 0) (t_value l)
           \<and> float_less (Fin 0) (t_value g)"
proof -
  let ?M = "merge2 (merge1 (year_filter P) (year_filter (tidy_coerced life))) (year_filter G)"
  have a: "astype_int (positive_filter (dropna ?M)) = Inr rs"
    using load_and_process_data_Inr [OF assms(3)] assms(1,2) by auto
  obtain m y where m: "m \<in> set (positive_filter (dropna ?M))"
    and y: "f_year m = Fin y" and r: "r = final_of m y"
    using astype_int_sound [OF a assms(4)] by blast
  have pos: "float_less (Fin 0) (f_population m)" "float_less (Fin 0) (f_life_expectancy m)"
    "float_less (Fin 0) (f_gni_per_capita m)" and d: "m \<in> set (dropna ?M)"
    using m by (simp_all add: set_positive_filter)
  have na: "f_country m \<noteq> None" "f_population m \<noteq> NaN" "f_life_expectancy m \<noteq> NaN"
    "f_gni_per_capita m \<noteq> NaN" and mm: "m \<in> set ?M"
    using d by (simp_all add: set_dropna)
  obtain x g where x: "x \<in> set (merge1 (year_filter P) (year_filter (tidy_coerced life)))"
    and g: "g \<in> set (year_filter G)" "t_country g = m_country x" "t_year g = m_year x"
    and mx: "m = \<lparr>f_country = m_country x, f_year = m_year x, f_population = m_population x,
                  f_life_expectancy = m_life_expectancy x, f_gni_per_capita = t_value g\<rparr>"
    using mm unfolding set_merge2 by blast
  obtain p l where p: "p \<in> set (year_filter P)" and l: "l \<in> set (year_filter (tidy_coerced life))"
    and pl: "t_country l = t_country p" "t_year l = t_year p"
    and xp: "x = \<lparr>m_country = t_country p, m_year = t_year p, m_population = t_value p,
                  m_life_expectancy = t_value l\<rparr>"
    using x unfolding set_merge1 by blast
  have py: "t_year p = Fin y" using y mx xp by simp
  have "float_le min_year (t_year p)" "float_le (t_year p) max_year"
    using p by (simp_all add: set_year_filter)
  then have rng: "1990 \<le> y" "y \<le> 2023"
    using year_in_range [of "t_year p"] py by auto
  have "p \<in> set P" "l \<in> set (tidy_coerced life)" "g \<in> set G"
    using p l g(1) by (simp_all add: set_year_filter)
  moreover have "t_country p = country r" "t_country l = country r" "t_country g = country r"
    "t_year p = Fin y" "t_year l = Fin y" "t_year g = Fin y" "year r = py_trunc y"
    "population r = t_value p" "life_expectancy r = t_value l" "gni_per_capita r = t_value g"
    using r mx xp pl g(2,3) py by (simp_all add: final_of_def)
  moreover have "country r \<noteq> None" "t_value p \<noteq> NaN" "t_value l \<noteq> NaN" "t_value g \<noteq> NaN"
    "float_less (Fin 0) (t_value p)" "float_less (Fin 0) (t_value l)"
    "float_less (Fin 0) (t_value g)"
    using na pos r mx xp by (simp_all add: final_of_def)
  ultimately show ?thesis using rng by blast
qed
lemma merged_year_finite:
  assumes "m \<in> set (merge2 (merge1 (year_filter P) L) G)"
  shows "\<exists>y. f_year m = Fin y"
proof -
  obtain x g where x: "x \<in> set (merge1 (year_filter P) L)" and "g \<in> set G"
    and mx: "m = \<lparr>f_country = m_country x, f_year = m_year x, f_population = m_population x,
                  f_life_expectancy = m_life_expectancy x, f_gni_per_capita = t_value g\<rparr>"
    using assms unfolding set_merge2 by blast
  obtain p l where p: "p \<in> set (year_filter P)" and "l \<in> set L"
    and xp: "x = \<lparr>m_country = t_country p, m_year = t_year p, m_population = t_value p,
                  m_life_expectancy = t_value l\<rparr>"
    using x unfolding set_merge1 by blast
  have "float_le min_year (t_year p)" "float_le (t_year p) max_year"
    using p by (simp_all add: set_year_filter)
  then obtain y where "t_year p = Fin y" using year_in_range by blast
  then show ?thesis using mx xp by simp
qed

lemma load_and_process_data_total:
  assumes "tidy_parsed pop = Inr P" and "tidy_parsed gni = Inr G"
  shows "\<exists>rs. load_and_process_data pop life gni = Inr rs"
proof -
  let ?M = "merge2 (merge1 (year_filter P) (year_filter (tidy_coerced life))) (year_filter G)"
  have "\<forall>m \<in> set (positive_filter (dropna ?M)). \<exists>y. f_year m = Fin y"
    using merged_year_finite by (auto simp: set_positive_filter set_dropna)
  then obtain rs where "astype_int (positive_filter (dropna ?M)) = Inr rs"
    using astype_int_total by blast
  then show ?thesis using assms by (simp add: load_and_process_data_def)
qed

lemma join_complete:
  assumes P: "tidy_parsed pop = Inr P" and G: "tidy_parsed gni = Inr G"
    and run: "load_and_process_data pop life gni = Inr rs"
    and p: "p \<in> set P" and l: "l \<in> set (tidy_coerced life)" and g: "g \<in> set G"
    and c: "t_country p = Some c" "t_country l = Some c" "t_country g = Some c"
    and y: "t_year p = Fin y" "t_year l = Fin y" "t_year g = Fin y"
    and rng: "1990 \<le> y" "y \<le> 2023"
    and pos: "float_less (Fin 0) (t_value p)" "float_less (Fin 0) (t_value l)"
      "float_less (Fin 0) (t_value g)"
  shows "\<lparr>country = Some c, year = py_trunc y, population = t_value p,
          life_expectancy = t_value l, gni_per_capita = t_value g\<rparr> \<in> set rs"
proof -
  let ?M = "merge2 (merge1 (year_filter P) (year_filter (tidy_coerced life))) (year_filter G)"
  let ?m = "\<lparr>f_country = Some c, f_year = Fin y, f_population = t_value p,
             f_life_expectancy = t_value l, f_gni_per_capita = t_value g\<rparr>"
  have a: "astype_int (positive_filter (dropna ?M)) = Inr rs"
    using load_and_process_data_Inr [OF run] P G by auto
  have inr: "float_le min_year (Fin y)" "float_le (Fin y) max_year"
    using rng by (auto simp: min_year_def max_year_def)
  have pf: "p \<in> set (year_filter P)" "l \<in> set (year_filter (tidy_coerced life))"
    "g \<in> set (year_filter G)"
    using p l g y inr by (simp_all add: set_year_filter)
  let ?x = "\<lparr>m_country = Some c, m_year = Fin y, m_population = t_value p,
             m_life_expectancy = t_value l\<rparr>"
  have x: "?x \<in> set (merge1 (year_filter P) (year_filter (tidy_coerced life)))"
    unfolding set_merge1
    by (rule bexI [OF _ pf(1)], rule bexI [OF _ pf(2)]) (simp add: c y)
  have "?m \<in> set ?M"
    unfolding set_merge2
    by (rule bexI [OF _ x], rule bexI [OF _ pf(3)]) (simp add: c y)
  moreover have "t_value p \<noteq> NaN" "t_value l \<noteq> NaN" "t_value g \<noteq> NaN"
    using pos by auto
  ultimately have "?m \<in> set (positive_filter (dropna ?M))"
    using pos by (simp add: set_positive_filter set_dropna)
  then obtain y' where "f_year ?m = Fin y'" "final_of ?m y' \<in> set rs"
    using astype_int_complete [OF a] by blast
  then show ?thesis by (simp add: final_of_def)
qed

lemma example_run:
  "load_and_process_data example_population example_life example_gni = Inr example_result"
  by code_simp

text \<open>
  C4. Every record of the final dataset has its country, population, life expectancy
  and GNI per capita present, the three numbers strictly positive, and an integer year
  from 1990 to 2023; so no record has the year 1989 or a life expectancy of 0.
\<close>

theorem final_dataset_invariant:
  assumes "load_and_process_data pop life gni = Inr rs" and "r \<in> set rs"
  shows "country r \<noteq> None
    \<and> population r \<noteq> NaN \<and> life_expectancy r \<noteq> NaN \<and> gni_per_capita r \<noteq> NaN
    \<and> float_less (Fin 0) (population r) \<and> float_less (Fin 0) (life_expectancy r)
    \<and> float_less (Fin 0) (gni_per_capita r)
    \<and> 1990 \<le> year r \<and> year r \<le> 2023 \<and> year r \<noteq> 1989 \<and> life_expectancy r \<noteq> Fin 0"
proof -
  obtain P G where PG: "tidy_parsed pop = Inr P" "tidy_parsed gni = Inr G"
    using load_and_process_data_Inr [OF assms(1)] by blast
  obtain p l g y where "p \<in> set P" "l \<in> set (tidy_coerced life)" "g \<in> set G"
    and o: "country r \<noteq> None" "t_value p \<noteq> NaN" "t_value l \<noteq> NaN"
    "t_value g \<noteq> NaN" "float_less (Fin 0) (t_value p)" "float_less (Fin 0) (t_value l)"
    "float_less (Fin 0) (t_value g)" "population r = t_value p" "life_expectancy r = t_value l"
    "gni_per_capita r = t_value g" "1990 \<le> y" "y \<le> 2023" "year r = py_trunc y"
    using final_record_origin [OF PG assms] by blast
  have "1990 \<le> year r \<and> year r \<le> 2023" using py_trunc_range o(11,12,13) by simp
  moreover have "life_expectancy r \<noteq> Fin 0" using o(6,9) by auto
  ultimately show ?thesis using o by simp
qed

theorem final_dataset_invariant_witness:
  "load_and_process_data example_population example_life example_gni = Inr example_result
   \<and> \<lparr>country = Some ''Albania'', year = 1991, population = Fin 3280000,
       life_expectancy = Fin 74, gni_per_capita = Fin 4300\<rparr> \<in> set example_result
   \<and> float_less (Fin 0) (Fin 3280000) \<and> float_less (Fin 0) (Fin 74)
   \<and> float_less (Fin 0) (Fin 4300) \<and> (1990::int) \<le> 1991 \<and> (1991::int) \<le> 2023"
  using final_dataset_invariant [OF example_run,
      of "\<lparr>country = Some ''Albania'', year = 1991, population = Fin 3280000,
           life_expectancy = Fin 74, gni_per_capita = Fin 4300\<rparr>"] example_run
  by (simp add: example_result_def)

text \<open>
  C5. The final dataset is the inner join of the three tidy tables on the pair
  (country, year): every final record is made of one population record, one life
  expectancy record and one GNI record that carry the same country, compared as
  strings character by character, and the same year, so a pair that one source lacks
  is in no final record; and every such triple whose values pass the filters gives a
  final record. A record has the columns country, year, population, life_expectancy
  and gni_per_capita.
\<close>

theorem source_aligner_inner_join:
  assumes "load_and_process_data pop life gni = Inr rs"
  shows "\<exists>P G. tidy_parsed pop = Inr P \<and> tidy_parsed gni = Inr G
    \<and> (\<forall>r \<in> set rs. \<exists>p \<in> set P. \<exists>l \<in> set (tidy_coerced life). \<exists>g \<in> set G. \<exists>y.
          t_country p = country r \<and> t_country l = country r \<and> t_country g = country r
          \<and> t_year p = Fin y \<and> t_year l = Fin y \<and> t_year g = Fin y
          \<and> r = \<lparr>country = t_country p, year = py_trunc y, population = t_value p,
                  life_expectancy = t_value l, gni_per_capita = t_value g\<rparr>)
    \<and> (\<forall>p \<in> set P. \<forall>l \<in> set (tidy_coerced life). \<forall>g \<in> set G. \<forall>c y.
          t_country p = Some c \<and> t_country l = Some c \<and> t_country g = Some c
          \<and> t_year p = Fin y \<and> t_year l = Fin y \<and> t_year g = Fin y
          \<and> 1990 \<le> y \<and> y \<le> 2023
          \<and> float_less (Fin 0) (t_value p) \<and> float_less (Fin 0) (t_value l)
          \<and> float_less (Fin 0) (t_value g)
          \<longrightarrow> \<lparr>country = Some c, year = py_trunc y, population = t_value p,
                life_expectancy = t_value l, gni_per_capita = t_value g\<rparr> \<in> set rs)"
proof -
  obtain P G where PG: "tidy_parsed pop = Inr P" "tidy_parsed gni = Inr G"
    using load_and_process_data_Inr [OF assms] by blast
  have fwd: "\<exists>p \<in> set P. \<exists>l \<in> set (tidy_coerced life). \<exists>g \<in> set G. \<exists>y.
          t_country p = country r \<and> t_country l = country r \<and> t_country g = country r
          \<and> t_year p = Fin y \<and> t_year l = Fin y \<and> t_year g = Fin y
          \<and> r = \<lparr>country = t_country p, year = py_trunc y, population = t_value p,
                  life_expectancy = t_value l, gni_per_capita = t_value g\<rparr>"
    if rin: "r \<in> set rs" for r
  proof -
    obtain p l g y where o: "p \<in> set P" "l \<in> set (tidy_coerced life)" "g \<in> set G"
      "t_country p = country r" "t_country l = country r" "t_country g = country r"
      "t_year p = Fin y" "t_year l = Fin y" "t_year g = Fin y" "year r = py_trunc y"
      "population r = t_value p" "life_expectancy r = t_value l" "gni_per_capita r = t_value g"
      using final_record_origin [OF PG assms rin] by blast
    have "r = \<lparr>country = t_country p, year = py_trunc y, population = t_value p,
                life_expectancy = t_value l, gni_per_capita = t_value g\<rparr>"
      using o by simp
    then show ?thesis using o by blast
  qed
  have bwd: "\<lparr>country = Some c, year = py_trunc y, population = t_value p,
                life_expectancy = t_value l, gni_per_capita = t_value g\<rparr> \<in> set rs"
    if "p \<in> set P" "l \<in> set (tidy_coerced life)" "g \<in> set G"
      "t_country p = Some c \<and> t_country l = Some c \<and> t_country g = Some c
          \<and> t_year p = Fin y \<and> t_year l = Fin y \<and> t_year g = Fin y
          \<and> 1990 \<le> y \<and> y \<le> 2023
          \<and> float_less (Fin 0) (t_value p) \<and> float_less (Fin 0) (t_value l)
          \<and> float_less (Fin 0) (t_value g)" for p l g c y
    using join_complete [OF PG assms that(1,2,3)] that(4) by blast
  show ?thesis using PG fwd bwd by blast
qed
lemma example_chad:
  "(case tidy_parsed example_population of Inl e \<Rightarrow> False
    | Inr P \<Rightarrow> \<exists>p \<in> set P. t_country p = Some ''Chad'' \<and> t_year p = Fin 1990)
   \<and> (case tidy_parsed example_gni of Inl e \<Rightarrow> False
    | Inr G \<Rightarrow> \<exists>g \<in> set G. t_country g = Some ''Chad'' \<and> t_year g = Fin 1990)
   \<and> Some ''Chad'' \<notin> set (map t_country (tidy_coerced example_life))
   \<and> Some ''Chad'' \<notin> set (map country example_result)"
  by code_simp

theorem source_aligner_inner_join_witness:
  "load_and_process_data example_population example_life example_gni = Inr example_result
   \<and> (\<exists>P G. tidy_parsed example_population = Inr P \<and> tidy_parsed example_gni = Inr G
    \<and> (\<forall>r \<in> set example_result.
          \<exists>p \<in> set P. \<exists>l \<in> set (tidy_coerced example_life). \<exists>g \<in> set G. \<exists>y.
          t_country p = country r \<and> t_country l = country r \<and> t_country g = country r
          \<and> t_year p = Fin y \<and> t_year l = Fin y \<and> t_year g = Fin y
          \<and> r = \<lparr>country = t_country p, year = py_trunc y, population = t_value p,
                  life_expectancy = t_value l, gni_per_capita = t_value g\<rparr>)
    \<and> (\<forall>p \<in> set P. \<forall>l \<in> set (tidy_coerced example_life). \<forall>g \<in> set G. \<forall>c y.
          t_country p = Some c \<and> t_country l = Some c \<and> t_country g = Some c
          \<and> t_year p = Fin y \<and> t_year l = Fin y \<and> t_year g = Fin y
          \<and> 1990 \<le> y \<and> y \<le> 2023
          \<and> float_less (Fin 0) (t_value p) \<and> float_less (Fin 0) (t_value l)
          \<and> float_less (Fin 0) (t_value g)
          \<longrightarrow> \<lparr>country = Some c, year = py_trunc y, population = t_value p,
                life_expectancy = t_value l, gni_per_capita = t_value g\<rparr> \<in> set example_result))
   \<and> (case tidy_parsed example_population of Inl e \<Rightarrow> False
    | Inr P \<Rightarrow> \<exists>p \<in> set P. t_country p = Some ''Chad'' \<and> t_year p = Fin 1990)
   \<and> (case tidy_parsed example_gni of Inl e \<Rightarrow> False
    | Inr G \<Rightarrow> \<exists>g \<in> set G. t_country g = Some ''Chad'' \<and> t_year g = Fin 1990)
   \<and> Some ''Chad'' \<notin> set (map t_country (tidy_coerced example_life))
   \<and> Some ''Chad'' \<notin> set (map country example_result)"
  by (intro conjI example_run source_aligner_inner_join [OF example_run]
      example_chad [THEN conjunct1] example_chad [THEN conjunct2, THEN conjunct1]
      example_chad [THEN conjunct2, THEN conjunct2, THEN conjunct1]
      example_chad [THEN conjunct2, THEN conjunct2, THEN conjunct2])

section \<open>The script: results\<close>

lemma set_unique: "set (unique xs) = set xs"
  by (simp add: unique_def)

lemma distinct_unique: "distinct (unique xs)"
  by (simp add: unique_def)

lemma example_summaries:
  "years example_result = [1990, 1991] \<and> countries example_result = [''Albania'']"
  by code_simp

text \<open>
  C9. The two summaries computed from the final dataset are the sorted list of the
  distinct years in it and the sorted list of the distinct country names in it.
\<close>

theorem derived_summaries:
  assumes "load_and_process_data pop life gni = Inr data"
  shows "sorted (years data) \<and> distinct (years data) \<and> set (years data) = year ` set data
    \<and> sorted (countries data) \<and> distinct (countries data)
    \<and> Some ` set (countries data) = country ` set data"
proof -
  have y: "sorted (years data) \<and> distinct (years data) \<and> set (years data) = year ` set data"
    by (simp add: years_def set_unique distinct_unique)
  have c: "sorted (countries data) \<and> distinct (countries data)"
    by (simp add: countries_def distinct_unique)
  have "country r \<noteq> None" if "r \<in> set data" for r
    using final_record_origin load_and_process_data_Inr [OF assms] assms that by blast
  then have "Some ` set (List.map_filter country data) = country ` set data"
    by (force simp: List.map_filter_def image_iff)
  then have "Some ` set (countries data) = country ` set data"
    by (simp add: countries_def set_unique)
  then show ?thesis using y c by simp
qed

theorem derived_summaries_witness:
  "load_and_process_data example_population example_life example_gni = Inr example_result
   \<and> years example_result = [1990, 1991] \<and> countries example_result = [''Albania'']
   \<and> sorted (years example_result) \<and> distinct (years example_result)
   \<and> set (years example_result) = year ` set example_result
   \<and> sorted (countries example_result) \<and> distinct (countries example_result)
   \<and> Some ` set (countries example_result) = country ` set example_result"
  using derived_summaries [OF example_run] example_run example_summaries by simp
section \<open>Forward fill and melt\<close>

lemma length_ffill_cells: "length (ffill_cells prev cs) = length cs"
  by (induction cs arbitrary: prev) auto

lemma ffill_cells_no_missing: "\<forall>c \<in> set cs. \<not> is_missing c \<Longrightarrow> ffill_cells prev cs = cs"
  by (induction cs arbitrary: prev) auto

lemma wf_table_ffill: "wf_table t \<Longrightarrow> wf_table (ffill t)"
  by (auto simp: wf_table_def ffill_def ffill_row_def list_all_iff length_ffill_cells)

lemma set_melt:
  "m \<in> set (melt t) \<longleftrightarrow>
     (\<exists>j < length (year_columns t). \<exists>r \<in> set (table_rows t).
        m = \<lparr>r_country = w_country r, r_year = year_columns t ! j, r_value = w_cells r ! j\<rparr>)"
  by (auto simp: melt_def)

lemma melt_value_in_cells:
  assumes "wf_table t" and "m \<in> set (melt t)"
  shows "\<exists>r \<in> set (table_rows t). r_country m = w_country r \<and> r_value m \<in> set (w_cells r)
           \<and> r_year m \<in> set (year_columns t)"
proof -
  obtain j r where j: "j < length (year_columns t)" and r: "r \<in> set (table_rows t)"
    and m: "m = \<lparr>r_country = w_country r, r_year = year_columns t ! j, r_value = w_cells r ! j\<rparr>"
    using assms(2) unfolding set_melt by blast
  have "length (w_cells r) = length (year_columns t)"
    using assms(1) r by (simp add: wf_table_def list_all_iff)
  then have "w_cells r ! j \<in> set (w_cells r)" using j by simp
  then show ?thesis using r m j by auto
qed

lemma ffill_no_missing:
  assumes "\<forall>r \<in> set (table_rows t). \<forall>c \<in> set (w_cells r). \<not> is_missing c"
  shows "ffill t = t"
proof -
  have "ffill_row r = r" if "r \<in> set (table_rows t)" for r
    using assms that by (simp add: ffill_row_def ffill_cells_no_missing)
  then have "map ffill_row (table_rows t) = table_rows t"
    by (simp add: map_idI)
  then show ?thesis by (simp add: ffill_def)
qed

lemma zero_is_not_missing: "pd_to_numeric c = Fin 0 \<Longrightarrow> \<not> is_missing c"
  by (auto simp: is_missing_def)

lemma all_zero_life:
  assumes "wf_table life"
    and "\<forall>r \<in> set (table_rows life). \<forall>c \<in> set (w_cells r). pd_to_numeric c = Fin 0"
    and "l \<in> set (tidy_coerced life)"
  shows "t_value l = Fin 0"
proof -
  have "ffill life = life"
    using assms(2) zero_is_not_missing by (intro ffill_no_missing) blast
  then obtain m where m: "m \<in> set (melt life)" and l: "l = tidy_record_of m (pd_to_numeric (r_value m))"
    using assms(3) by (auto simp: tidy_coerced_def)
  obtain r where "r \<in> set (table_rows life)" "r_value m \<in> set (w_cells r)"
    using melt_value_in_cells [OF assms(1) m] by blast
  then have "pd_to_numeric (r_value m) = Fin 0" using assms(2) by blast
  then show ?thesis using l by (simp add: tidy_record_of_def)
qed

lemma example_zero_run:
  "load_and_process_data example_population example_life_zero example_gni = Inr []"
  by code_simp

lemma example_zero_cells:
  "wf_table example_life_zero
   \<and> list_all (\<lambda>r. list_all (\<lambda>c. pd_to_numeric c = Fin 0) (w_cells r))
        (table_rows example_life_zero)"
  by code_simp

text \<open>
  C7. When the final dataset is empty the script reports the error "No data available
  after processing!" and stops: nothing else is shown, in particular no chart. This
  is what happens when every cell of the life expectancy table is 0.
\<close>

theorem no_data_is_fatal:
  "(load_and_process_data pop life gni = Inr [] \<longrightarrow>
      app pop life gni ui = Inr [StError ''No data available after processing!'', StStop]
      \<and> \<not> list_ex is_chart [StError ''No data available after processing!'', StStop])
   \<and> (wf_table life
       \<and> (\<forall>r \<in> set (table_rows life). \<forall>c \<in> set (w_cells r). pd_to_numeric c = Fin 0)
       \<and> load_and_process_data pop life gni = Inr data \<longrightarrow>
      data = []
      \<and> app pop life gni ui = Inr [StError ''No data available after processing!'', StStop])"
proof -
  have a: "app pop life gni ui = Inr [StError ''No data available after processing!'', StStop]"
    if "load_and_process_data pop life gni = Inr []"
    using that by (simp add: app_def script_def)
  have b: "\<not> list_ex is_chart [StError ''No data available after processing!'', StStop]"
    by (simp add: is_chart_def)
  have c: "data = []"
    if wf: "wf_table life"
      and z: "\<forall>r \<in> set (table_rows life). \<forall>c \<in> set (w_cells r). pd_to_numeric c = Fin 0"
      and run: "load_and_process_data pop life gni = Inr data"
  proof (rule ccontr)
    assume "data \<noteq> []"
    then obtain r where r: "r \<in> set data" by (cases data) auto
    obtain P G where PG: "tidy_parsed pop = Inr P" "tidy_parsed gni = Inr G"
      using load_and_process_data_Inr [OF run] by blast
    obtain l where "l \<in> set (tidy_coerced life)" "float_less (Fin 0) (t_value l)"
      using final_record_origin [OF PG run r] by blast
    then show False using all_zero_life [OF wf z] by auto
  qed
  show ?thesis using a b c by blast
qed

theorem no_data_is_fatal_witness:
  "load_and_process_data example_population example_life_zero example_gni = Inr []
   \<and> wf_table example_life_zero
   \<and> list_all (\<lambda>r. list_all (\<lambda>c. pd_to_numeric c = Fin 0) (w_cells r))
        (table_rows example_life_zero)
   \<and> app example_population example_life_zero example_gni
         \<lparr>selected_year = 1990, selected_countries = [''Albania''],
          show_data_table = False, play_animation = True\<rparr>
       = Inr [StError ''No data available after processing!'', StStop]
   \<and> \<not> list_ex is_chart [StError ''No data available after processing!'', StStop]"
  using no_data_is_fatal [of example_population example_life_zero example_gni
      "\<lparr>selected_year = 1990, selected_countries = [''Albania''],
        show_data_table = False, play_animation = True\<rparr>" "[]"]
    example_zero_run example_zero_cells
  by (simp add: list_all_iff)

section \<open>The table reshaper: results\<close>

lemma concat_map_product:
  "concat (map (\<lambda>h. map (\<lambda>r. (h, f r)) rs) hs) = List.product hs (map f rs)"
  by (induction hs) (simp_all add: comp_def)

lemma melt_keys:
  "map (\<lambda>m. (r_year m, r_country m)) (melt t)
     = List.product (year_columns t) (map w_country (table_rows t))"
proof -
  have "map (\<lambda>m. (r_year m, r_country m)) (melt t)
      = concat (map (\<lambda>j. map (\<lambda>r. (year_columns t ! j, w_country r)) (table_rows t))
                    [0..<length (year_columns t)])"
    by (simp add: melt_def map_concat comp_def)
  also have "\<dots> = concat (map (\<lambda>h. map (\<lambda>r. (h, w_country r)) (table_rows t))
                    (map (\<lambda>j. year_columns t ! j) [0..<length (year_columns t)]))"
    by (simp add: comp_def)
  also have "\<dots> = concat (map (\<lambda>h. map (\<lambda>r. (h, w_country r)) (table_rows t)) (year_columns t))"
    by (simp add: map_nth)
  also have "\<dots> = List.product (year_columns t) (map w_country (table_rows t))"
    by (rule concat_map_product)
  finally show ?thesis .
qed

lemma ffill_keeps_keys:
  "year_columns (ffill t) = year_columns t
   \<and> map w_country (table_rows (ffill t)) = map w_country (table_rows t)"
  by (simp add: ffill_def ffill_row_def comp_def)

lemma length_melt: "length (melt t) = length (year_columns t) * length (table_rows t)"
proof -
  have "length (melt t) = length (map (\<lambda>m. (r_year m, r_country m)) (melt t))" by simp
  then show ?thesis unfolding melt_keys by simp
qed

lemma ffill_cells_nth:
  "j < length cs \<Longrightarrow>
     ffill_cells prev cs ! j =
       (if is_missing (cs ! j) then (if j = 0 then prev else ffill_cells prev cs ! (j - 1))
        else cs ! j)"
proof (induction cs arbitrary: prev j)
  case Nil
  then show ?case by simp
next
  case (Cons c cs)
  show ?case
  proof (cases j)
    case 0
    then show ?thesis by simp
  next
    case (Suc k)
    then have k: "k < length cs" using Cons.prems by simp
    show ?thesis
    proof (cases k)
      case 0
      then show ?thesis using Suc k Cons.IH [OF k] by simp
    next
      case (Suc i)
      then show ?thesis using \<open>j = Suc k\<close> k Cons.IH [OF k] by simp
    qed
  qed
qed

lemma apply_parse_number_Inr:
  "apply_parse_number cs = Inr vs \<Longrightarrow> map parse_number cs = map Inr vs"
  by (induction cs arbitrary: vs) (auto split: sum.splits)

lemma tidy_parsed_Inr:
  assumes "tidy_parsed t = Inr ts"
  shows "map t_country ts = map r_country (melt (ffill t))
    \<and> map t_year ts = map (\<lambda>m. pd_to_numeric_str (r_year m)) (melt (ffill t))
    \<and> map (\<lambda>m. parse_number (r_value m)) (melt (ffill t)) = map (\<lambda>r. Inr (t_value r)) ts"
proof -
  let ?ms = "melt (ffill t)"
  obtain vs where vs: "apply_parse_number (map r_value ?ms) = Inr vs"
    and ts: "ts = map2 tidy_record_of ?ms vs"
    using assms by (auto simp: tidy_parsed_def Let_def split: sum.splits)
  have eq: "map parse_number (map r_value ?ms) = map Inr vs"
    using apply_parse_number_Inr [OF vs] .
  then have len: "length vs = length ?ms"
    by (metis length_map)
  have "map t_country ts = map r_country ?ms"
    unfolding ts using len
    by (intro nth_equalityI) (simp_all add: tidy_record_of_def)
  moreover have "map t_year ts = map (\<lambda>m. pd_to_numeric_str (r_year m)) ?ms"
    unfolding ts using len
    by (intro nth_equalityI) (simp_all add: tidy_record_of_def)
  moreover have "map t_value ts = vs"
    unfolding ts using len
    by (intro nth_equalityI) (simp_all add: tidy_record_of_def)
  moreover have "map (\<lambda>m. parse_number (r_value m)) ?ms = map Inr vs"
    using eq by (simp add: comp_def)
  moreover have "map (\<lambda>r. Inr (t_value r) :: py_error + pyfloat) ts = map Inr (map t_value ts)"
    by simp
  ultimately show ?thesis by simp
qed

lemma tidy_coerced_maps:
  "map t_country (tidy_coerced t) = map r_country (melt (ffill t))
   \<and> map t_year (tidy_coerced t) = map (\<lambda>m. pd_to_numeric_str (r_year m)) (melt (ffill t))
   \<and> map t_value (tidy_coerced t) = map (\<lambda>m. pd_to_numeric (r_value m)) (melt (ffill t))"
  by (simp add: tidy_coerced_def tidy_record_of_def comp_def)

lemma round_half_even_one: "round_half_even k 1 = k"
  by (simp add: round_half_even_def)

lemma bitlen_one: "bitlen 1 = 1"
  by (subst compute_bitlen) simp

lemma bitlen_le_53:
  assumes "0 < n" and "n < 9007199254740992"
  shows "1 \<le> bitlen n \<and> bitlen n \<le> 53"
proof -
  have b: "2 ^ nat (bitlen n - 1) \<le> n" using bitlen_bounds [OF assms(1)] by simp
  have "bitlen n \<noteq> 0" using assms(1) by (simp add: bitlen_eq_zero_iff)
  then have p: "0 < bitlen n" using bitlen_nonneg [of n] by linarith
  have lt: "(2::int) ^ nat (bitlen n - 1) < 2 ^ 53" using b assms(2) by simp
  have "nat (bitlen n - 1) < 53" by (rule power_less_imp_less_exp [OF _ lt]) simp
  then show ?thesis using p by linarith
qed

lemma round_magnitude_int:
  assumes "0 < n" and "n < 9007199254740992"
  shows "round_magnitude n 1 = Some (of_int n)"
proof -
  have bl: "1 \<le> bitlen n" "bitlen n \<le> 53" using bitlen_le_53 [OF assms] by auto
  have "2 ^ nat (bitlen n - 1) \<le> n" using bitlen_bounds [OF assms(1)] by simp
  then have e: "binary_exponent n 1 = bitlen n - 1"
    using bl by (simp add: binary_exponent_def frac_ge_pow2_def Let_def bitlen_one)
  define k where "k = nat (53 - bitlen n)"
  have u: "max (bitlen n - 1 - 52) (- 1074) = - int k" using bl by (simp add: k_def)
  have "round_magnitude n 1 =
      (if 971 < - int k \<or> (- int k = 971 \<and>
            9007199254740992 \<le> (if 0 \<le> - int k then round_half_even n (1 * 2 ^ nat (- int k))
                                   else round_half_even (n * 2 ^ nat (- (- int k))) 1))
       then None
       else Some (of_int (if 0 \<le> - int k then round_half_even n (1 * 2 ^ nat (- int k))
                           else round_half_even (n * 2 ^ nat (- (- int k))) 1) * pow2 (- int k)))"
    by (simp only: round_magnitude_def Let_def e u)
  also have "\<dots> = Some (of_int (n * 2 ^ k) * pow2 (- int k))"
    by (cases "k = 0") (simp_all add: round_half_even_one)
  also have "of_int (n * 2 ^ k) * pow2 (- int k) = (of_int n :: rat)"
    by (simp add: pow2_def)
  finally show ?thesis .
qed

lemma round_double_int:
  assumes "0 \<le> n" and "n < 9007199254740992"
  shows "round_double (of_int n) = Fin (of_int n)"
proof (cases "n = 0")
  case True
  then show ?thesis by (simp add: round_double_def)
next
  case False
  then have "0 < n" using assms(1) by simp
  then show ?thesis
    using round_magnitude_int [OF _ assms(2)] by (simp add: round_double_def)
qed

lemma digit_of_range: "digit_of c = Some d \<Longrightarrow> 0 \<le> d \<and> d \<le> 9"
  by (auto simp: digit_of_def Let_def split: if_splits)

lemma foldl_digits_bound:
  assumes "\<forall>c \<in> set ds. is_digit c" and "0 \<le> a"
  shows "0 \<le> foldl (\<lambda>a c. 10 * a + (case digit_of c of Some d \<Rightarrow> d | None \<Rightarrow> 0)) a ds
    \<and> foldl (\<lambda>a c. 10 * a + (case digit_of c of Some d \<Rightarrow> d | None \<Rightarrow> 0)) a ds
        < (a + 1) * 10 ^ length ds"
  using assms
proof (induction ds arbitrary: a)
  case Nil
  then show ?case by simp
next
  case (Cons c cs)
  obtain d where d: "digit_of c = Some d" using Cons.prems(1) by (auto simp: is_digit_def)
  have dr: "0 \<le> d" "d \<le> 9" using digit_of_range [OF d] by auto
  let ?f = "\<lambda>a c. 10 * a + (case digit_of c of Some d \<Rightarrow> d | None \<Rightarrow> 0)"
  have ih: "0 \<le> foldl ?f (10 * a + d) cs \<and> foldl ?f (10 * a + d) cs < (10 * a + d + 1) * 10 ^ length cs"
    using Cons.IH [of "10 * a + d"] Cons.prems dr by simp
  have "(10 * a + d + 1) * 10 ^ length cs \<le> (10 * a + 10) * (10::int) ^ length cs"
    using dr by (intro mult_right_mono) simp_all
  also have "\<dots> = (a + 1) * (10 * 10 ^ length cs)" by (simp add: algebra_simps)
  finally have "foldl ?f (10 * a + d) cs < (a + 1) * (10 * 10 ^ length cs)"
    using ih by linarith
  then show ?case using ih d by simp
qed

lemma digits_value_bound:
  assumes "\<forall>c \<in> set ds. is_digit c"
  shows "0 \<le> digits_value ds \<and> digits_value ds < 10 ^ length ds"
  using foldl_digits_bound [OF assms, of 0] by (simp add: digits_value_def)

lemma is_digit_not_space: "is_digit c \<Longrightarrow> \<not> is_space_ascii c"
  by (auto simp: is_digit_def digit_of_def is_space_ascii_def Let_def split: if_splits)

lemma is_digit_not_sign: "is_digit c \<Longrightarrow> c \<noteq> CHR ''-'' \<and> c \<noteq> CHR ''+''"
  by (auto simp: is_digit_def digit_of_def Let_def split: if_splits)

lemma parse_decimal_digits:
  assumes "h \<noteq> []" and "\<forall>c \<in> set h. is_digit c"
  shows "parse_decimal h = Some (of_int (digits_value h), [])"
proof -
  have tw: "takeWhile is_digit h = h" "dropWhile is_digit h = []"
    using assms(2) by simp_all
  show ?thesis
    using assms(1) by (simp add: parse_decimal_def Let_def parse_exponent_def scale10_def tw)
qed

lemma pd_to_numeric_str_digits:
  assumes "h \<noteq> []" and "\<forall>c \<in> set h. is_digit c" and "length h \<le> 15"
  shows "pd_to_numeric_str h = Fin (of_int (digits_value h))"
proof -
  obtain c cs where h: "h = c # cs" using assms(1) by (cases h) auto
  have c: "is_digit c" using assms(2) h by simp
  have sp: "dropWhile is_space_ascii h = h" using is_digit_not_space [OF c] h by simp
  have sg: "parse_sign h = (False, h)"
    using is_digit_not_sign [OF c] h by (simp add: parse_sign_def)
  have "digits_value h < 10 ^ length h" "0 \<le> digits_value h"
    using digits_value_bound [OF assms(2)] by auto
  moreover have "(10::int) ^ length h \<le> 10 ^ 15"
    using assms(3) by (intro power_increasing) simp_all
  ultimately have "digits_value h < 9007199254740992" by simp
  then have "round_double (of_int (digits_value h)) = Fin (of_int (digits_value h))"
    using \<open>0 \<le> digits_value h\<close> by (rule round_double_int [rotated])
  then show ?thesis
    by (simp add: pd_to_numeric_str_def sp sg parse_decimal_digits [OF assms(1,2)] negate_def)
qed

lemma nth_concat_columns:
  "j < n \<Longrightarrow> i < length rs \<Longrightarrow>
     concat (map (\<lambda>j. map (g j) rs) [0..<n]) ! (j * length rs + i) = g j (rs ! i)"
proof (induction n)
  case 0
  then show ?case by simp
next
  case (Suc n)
  have len: "length (concat (map (\<lambda>j. map (g j) rs) [0..<n])) = n * length rs"
    by (induction n) simp_all
  show ?case
  proof (cases "j < n")
    case True
    then have "Suc j \<le> n" by simp
    then have "Suc j * length rs \<le> n * length rs" by (rule mult_le_mono1)
    then have "j * length rs + i < n * length rs" using Suc.prems(2) by simp
    then show ?thesis using Suc.IH [OF True Suc.prems(2)] len by (simp add: nth_append)
  next
    case False
    then have "j = n" using Suc.prems(1) by simp
    then show ?thesis using Suc.prems(2) len by (simp add: nth_append)
  qed
qed

lemma nth_melt:
  assumes "i < length (table_rows t)" and "j < length (year_columns t)"
  shows "melt t ! (j * length (table_rows t) + i)
    = \<lparr>r_country = w_country (table_rows t ! i), r_year = year_columns t ! j,
       r_value = w_cells (table_rows t ! i) ! j\<rparr>"
  unfolding melt_def by (rule nth_concat_columns [OF assms(2,1)])

lemma nth_melt_ffill:
  assumes "i < length (table_rows t)" and "j < length (year_columns t)"
  shows "melt (ffill t) ! (j * length (table_rows t) + i)
    = \<lparr>r_country = w_country (table_rows t ! i), r_year = year_columns t ! j,
       r_value = ffill_cells (country_cell (table_rows t ! i)) (w_cells (table_rows t ! i)) ! j\<rparr>"
proof -
  have "i < length (table_rows (ffill t))" "j < length (year_columns (ffill t))"
    using assms by (simp_all add: ffill_def)
  from nth_melt [OF this] show ?thesis
    using assms by (simp add: ffill_def ffill_row_def)
qed

lemma melt_ffill_keys:
  "map (\<lambda>m. (r_country m, r_year m)) (melt (ffill t))
     = map prod.swap (List.product (year_columns t) (map w_country (table_rows t)))"
proof -
  have "map (\<lambda>m. (r_country m, r_year m)) (melt (ffill t))
      = map prod.swap (map (\<lambda>m. (r_year m, r_country m)) (melt (ffill t)))"
    by simp
  then show ?thesis
    unfolding melt_keys using ffill_keeps_keys [of t] by simp
qed

lemma example_wide_tidy:
  "tidy_parsed example_wide = Inr example_tidy \<and> tidy_coerced example_wide = example_tidy"
  by code_simp

text \<open>
  C3. Each row is forward filled from left to right before it is reshaped and before
  any cell is parsed: in the row with country A and the cells 10, missing, 30 under
  1990, 1991, 1992, the tidy record of (A, 1991) has the value 10. A table with
  unique country names gives exactly one tidy record for every pair of a country and a
  year column, and the year of that record is the column header made numeric, an
  integer for a header of digits.
\<close>

theorem table_reshaper:
  assumes wf: "wf_table t" and uniq: "distinct (map w_country (table_rows t))"
  shows "tidy_parsed example_wide = Inr example_tidy
    \<and> tidy_coerced example_wide = example_tidy
    \<and> (\<forall>r \<in> set (table_rows t). \<forall>j < length (w_cells r).
          ffill_cells (country_cell r) (w_cells r) ! j =
            (if is_missing (w_cells r ! j)
             then (if j = 0 then country_cell r
                   else ffill_cells (country_cell r) (w_cells r) ! (j - 1))
             else w_cells r ! j))
    \<and> (\<forall>i < length (table_rows t). \<forall>j < length (year_columns t).
          melt (ffill t) ! (j * length (table_rows t) + i) =
            \<lparr>r_country = w_country (table_rows t ! i), r_year = year_columns t ! j,
             r_value = ffill_cells (country_cell (table_rows t ! i))
                         (w_cells (table_rows t ! i)) ! j\<rparr>)
    \<and> length (melt (ffill t)) = length (year_columns t) * length (table_rows t)
    \<and> distinct (map (\<lambda>m. (r_country m, r_year m)) (melt (ffill t)))
    \<and> set (map (\<lambda>m. (r_country m, r_year m)) (melt (ffill t)))
        = set (map w_country (table_rows t)) \<times> set (year_columns t)
    \<and> tidy_coerced t
        = map (\<lambda>m. \<lparr>t_country = r_country m, t_year = pd_to_numeric_str (r_year m),
                     t_value = pd_to_numeric (r_value m)\<rparr>) (melt (ffill t))
    \<and> (\<forall>ts. tidy_parsed t = Inr ts \<longrightarrow>
          map t_country ts = map r_country (melt (ffill t))
          \<and> map t_year ts = map (\<lambda>m. pd_to_numeric_str (r_year m)) (melt (ffill t))
          \<and> map (\<lambda>m. parse_number (r_value m)) (melt (ffill t)) = map (\<lambda>r. Inr (t_value r)) ts)
    \<and> (\<forall>h \<in> set (year_columns t).
          h \<noteq> [] \<and> (\<forall>c \<in> set h. is_digit c) \<and> length h \<le> 15 \<longrightarrow>
          pd_to_numeric_str h = Fin (of_int (digits_value h)))"
proof -
  have fill: "\<forall>r \<in> set (table_rows t). \<forall>j < length (w_cells r).
          ffill_cells (country_cell r) (w_cells r) ! j =
            (if is_missing (w_cells r ! j)
             then (if j = 0 then country_cell r
                   else ffill_cells (country_cell r) (w_cells r) ! (j - 1))
             else w_cells r ! j)"
    using ffill_cells_nth by blast
  have nth: "\<forall>i < length (table_rows t). \<forall>j < length (year_columns t).
          melt (ffill t) ! (j * length (table_rows t) + i) =
            \<lparr>r_country = w_country (table_rows t ! i), r_year = year_columns t ! j,
             r_value = ffill_cells (country_cell (table_rows t ! i))
                         (w_cells (table_rows t ! i)) ! j\<rparr>"
    using nth_melt_ffill by blast
  have len: "length (melt (ffill t)) = length (year_columns t) * length (table_rows t)"
    using length_melt [of "ffill t"] by (simp add: ffill_def)
  have "distinct (year_columns t)" using wf by (simp add: wf_table_def)
  then have "distinct (List.product (year_columns t) (map w_country (table_rows t)))"
    using uniq by (rule distinct_product)
  then have dist: "distinct (map (\<lambda>m. (r_country m, r_year m)) (melt (ffill t)))"
    unfolding melt_ffill_keys by (simp add: distinct_map)
  have keys: "set (map (\<lambda>m. (r_country m, r_year m)) (melt (ffill t)))
        = set (map w_country (table_rows t)) \<times> set (year_columns t)"
    unfolding melt_ffill_keys by auto
  have co: "tidy_coerced t
        = map (\<lambda>m. \<lparr>t_country = r_country m, t_year = pd_to_numeric_str (r_year m),
                     t_value = pd_to_numeric (r_value m)\<rparr>) (melt (ffill t))"
    by (simp add: tidy_coerced_def tidy_record_of_def)
  have pa: "\<forall>ts. tidy_parsed t = Inr ts \<longrightarrow>
          map t_country ts = map r_country (melt (ffill t))
          \<and> map t_year ts = map (\<lambda>m. pd_to_numeric_str (r_year m)) (melt (ffill t))
          \<and> map (\<lambda>m. parse_number (r_value m)) (melt (ffill t)) = map (\<lambda>r. Inr (t_value r)) ts"
    using tidy_parsed_Inr by blast
  have dg: "\<forall>h \<in> set (year_columns t).
          h \<noteq> [] \<and> (\<forall>c \<in> set h. is_digit c) \<and> length h \<le> 15 \<longrightarrow>
          pd_to_numeric_str h = Fin (of_int (digits_value h))"
    using pd_to_numeric_str_digits by blast
  show ?thesis
    using example_wide_tidy fill nth len dist keys co pa dg by (intro conjI) simp_all
qed

lemma example_population_wf:
  "wf_table example_population \<and> distinct (map w_country (table_rows example_population))"
  by code_simp

lemma example_population_shape:
  "length (year_columns example_population) = 3 \<and> length (table_rows example_population) = 2
   \<and> table_rows example_population ! 0
       = \<lparr>w_country = Some ''Albania'', w_cells = [StrC ''3.29M'', StrC ''3.28M'', FloatC NaN]\<rparr>
   \<and> year_columns example_population ! 2 = ''1991''
   \<and> ffill_cells (StrC ''Albania'') [StrC ''3.29M'', StrC ''3.28M'', FloatC NaN] ! 2
       = StrC ''3.28M''
   \<and> pd_to_numeric_str ''1991'' = Fin 1991"
  by code_simp

theorem table_reshaper_witness:
  "wf_table example_population \<and> distinct (map w_country (table_rows example_population))
   \<and> tidy_parsed example_wide = Inr example_tidy
   \<and> length (melt (ffill example_population)) = 6
   \<and> distinct (map (\<lambda>m. (r_country m, r_year m)) (melt (ffill example_population)))
   \<and> melt (ffill example_population) ! 4
       = \<lparr>r_country = Some ''Albania'', r_year = ''1991'', r_value = StrC ''3.28M''\<rparr>"
proof -
  note w = example_population_wf [THEN conjunct1] example_population_wf [THEN conjunct2]
  note T = table_reshaper [OF w]
  have sh: "length (year_columns example_population) = 3"
    "length (table_rows example_population) = 2"
    "table_rows example_population ! 0
       = \<lparr>w_country = Some ''Albania'', w_cells = [StrC ''3.29M'', StrC ''3.28M'', FloatC NaN]\<rparr>"
    "year_columns example_population ! 2 = ''1991''"
    "ffill_cells (StrC ''Albania'') [StrC ''3.29M'', StrC ''3.28M'', FloatC NaN] ! 2
       = StrC ''3.28M''"
    using example_population_shape by simp_all
  have nth: "\<forall>i < length (table_rows example_population).
      \<forall>j < length (year_columns example_population).
          melt (ffill example_population) ! (j * length (table_rows example_population) + i) =
            \<lparr>r_country = w_country (table_rows example_population ! i),
             r_year = year_columns example_population ! j,
             r_value = ffill_cells (country_cell (table_rows example_population ! i))
                         (w_cells (table_rows example_population ! i)) ! j\<rparr>"
    using T by blast
  have "melt (ffill example_population) ! (2 * 2 + 0)
       = \<lparr>r_country = Some ''Albania'', r_year = ''1991'', r_value = StrC ''3.28M''\<rparr>"
    using nth [rule_format, of 0 2] sh by (simp add: country_cell_def)
  moreover have "length (melt (ffill example_population)) = 6"
    using T sh(1,2) by simp
  moreover have "distinct (map (\<lambda>m. (r_country m, r_year m)) (melt (ffill example_population)))"
    using T by blast
  moreover have "tidy_parsed example_wide = Inr example_tidy" using T by blast
  ultimately show ?thesis using w by simp
qed

section \<open>Forward fill from the country column\<close>










lemma nth_tidy_parsed:
  assumes "tidy_parsed t = Inr ts" and "k < length (melt (ffill t))"
  shows "parse_number (r_value (melt (ffill t) ! k)) = Inr (t_value (ts ! k))"
proof -
  have m: "map (\<lambda>m. parse_number (r_value m)) (melt (ffill t)) = map (\<lambda>r. Inr (t_value r)) ts"
    using tidy_parsed_Inr [OF assms(1)] by blast
  then have "length ts = length (melt (ffill t))" by (metis length_map)
  then show ?thesis using assms(2) nth_map [of k "melt (ffill t)"] nth_map [of k ts] m by metis
qed









section \<open>The end-to-end scenario\<close>

lemma filter_unique_key:
  "distinct (map f xs) \<Longrightarrow> k \<in> f ` set xs \<Longrightarrow> length (filter (\<lambda>x. f x = k) xs) = 1"
proof (induction xs)
  case Nil
  then show ?case by simp
next
  case (Cons x xs)
  show ?case
  proof (cases "f x = k")
    case True
    then have "k \<notin> f ` set xs" using Cons.prems(1) by auto
    then have "filter (\<lambda>x. f x = k) xs = []" by (auto simp: filter_empty_conv)
    then show ?thesis using True by simp
  next
    case False
    then have "k \<in> f ` set xs" using Cons.prems(2) by auto
    then show ?thesis using Cons.IH Cons.prems(1) False by simp
  qed
qed

lemma merge1_length:
  assumes "distinct (map (\<lambda>l. (t_country l, t_year l)) L)"
    and "\<forall>p \<in> set P. (t_country p, t_year p) \<in> (\<lambda>l. (t_country l, t_year l)) ` set L"
  shows "length (merge1 P L) = length P"
  using assms(2)
proof (induction P)
  case Nil
  then show ?case by (simp add: merge1_def)
next
  case (Cons p P)
  have mem: "(t_country p, t_year p) \<in> (\<lambda>l. (t_country l, t_year l)) ` set L"
    using Cons.prems by simp
  have "length (filter (\<lambda>l. (t_country l, t_year l) = (t_country p, t_year p)) L) = 1"
    by (rule filter_unique_key [OF assms(1) mem])
  then have "length (filter (\<lambda>l. t_country l = t_country p \<and> t_year l = t_year p) L) = 1"
    by simp
  moreover have "length (merge1 P L) = length P" using Cons by simp
  ultimately show ?case by (simp add: merge1_def)
qed

lemma merge2_length:
  assumes "distinct (map (\<lambda>g. (t_country g, t_year g)) G)"
    and "\<forall>m \<in> set M. (m_country m, m_year m) \<in> (\<lambda>g. (t_country g, t_year g)) ` set G"
  shows "length (merge2 M G) = length M"
  using assms(2)
proof (induction M)
  case Nil
  then show ?case by (simp add: merge2_def)
next
  case (Cons m M)
  have mem: "(m_country m, m_year m) \<in> (\<lambda>g. (t_country g, t_year g)) ` set G"
    using Cons.prems by simp
  have "length (filter (\<lambda>g. (t_country g, t_year g) = (m_country m, m_year m)) G) = 1"
    by (rule filter_unique_key [OF assms(1) mem])
  then have "length (filter (\<lambda>g. t_country g = m_country m \<and> t_year g = m_year m) G) = 1"
    by simp
  moreover have "length (merge2 M G) = length M" using Cons by simp
  ultimately show ?case by (simp add: merge2_def)
qed

lemma apply_parse_number_total:
  "\<forall>c \<in> set cs. \<exists>v. parse_number c = Inr v \<Longrightarrow> \<exists>vs. apply_parse_number cs = Inr vs"
proof (induction cs)
  case Nil
  then show ?case by simp
next
  case (Cons c cs)
  then obtain v vs where "parse_number c = Inr v" "apply_parse_number cs = Inr vs" by auto
  then show ?case by simp
qed

lemma valid_parsed_not_missing: "valid_parsed c \<Longrightarrow> \<not> is_missing c"
  by (auto simp: valid_parsed_def is_missing_def)

lemma valid_coerced_not_missing: "valid_coerced c \<Longrightarrow> \<not> is_missing c"
  by (auto simp: valid_coerced_def is_missing_def)

lemma scenario_years:
  "pd_to_numeric_str ''1990'' = Fin 1990 \<and> pd_to_numeric_str ''1991'' = Fin 1991
   \<and> pd_to_numeric_str ''1992'' = Fin 1992"
  by code_simp

lemma map_pair_zip: "map (\<lambda>x. (f x, g x)) xs = zip (map f xs) (map g xs)"
  by (induction xs) simp_all

lemma scenario_shape:
  assumes "scenario_table t"
  shows "length (year_columns t) = 3 \<and> length (table_rows t) = 3"
proof -
  have d: "distinct (year_columns t)" "distinct (map w_country (table_rows t))"
    using assms by (simp_all add: scenario_table_def wf_table_def)
  have "card (set (year_columns t)) = 3"
    using assms by (simp add: scenario_table_def)
  then have c: "length (year_columns t) = 3" using distinct_card [OF d(1)] by simp
  have "card (set (map w_country (table_rows t))) = 3"
    using assms by (simp add: scenario_table_def)
  then have "length (map w_country (table_rows t)) = 3" using distinct_card [OF d(2)] by simp
  then show ?thesis using c by simp
qed

lemma scenario_melt_keys:
  assumes "scenario_table t"
  shows "length (melt (ffill t)) = 9
    \<and> distinct (map (\<lambda>m. (r_country m, pd_to_numeric_str (r_year m))) (melt (ffill t)))
    \<and> set (map (\<lambda>m. (r_country m, pd_to_numeric_str (r_year m))) (melt (ffill t)))
        = {Some ''Afghanistan'', Some ''Albania'', Some ''Algeria''}
            \<times> {Fin 1990, Fin 1991, Fin 1992}"
proof -
  define xs where "xs = map (\<lambda>m. (r_country m, r_year m)) (melt (ffill t))"
  define phi where "phi = (\<lambda>(c, h). (c :: string option, pd_to_numeric_str h))"
  have cols: "set (year_columns t) = {''1990'', ''1991'', ''1992''}"
    and rows: "set (map w_country (table_rows t))
        = {Some ''Afghanistan'', Some ''Albania'', Some ''Algeria''}"
    and d: "distinct (year_columns t)" "distinct (map w_country (table_rows t))"
    using assms by (simp_all add: scenario_table_def wf_table_def)
  have len: "length (melt (ffill t)) = 9"
    using length_melt [of "ffill t"] scenario_shape [OF assms] by (simp add: ffill_def)
  have "distinct (List.product (year_columns t) (map w_country (table_rows t)))"
    using d by (rule distinct_product)
  then have dx: "distinct xs" unfolding xs_def melt_ffill_keys by (simp add: distinct_map)
  have sx: "set xs = set (map w_country (table_rows t)) \<times> set (year_columns t)"
    unfolding xs_def melt_ffill_keys by auto
  have inj: "inj_on phi (set xs)"
    unfolding sx cols phi_def using scenario_years by (auto simp: inj_on_def)
  have eq: "map (\<lambda>m. (r_country m, pd_to_numeric_str (r_year m))) (melt (ffill t)) = map phi xs"
    by (simp add: xs_def phi_def)
  have dist: "distinct (map phi xs)" using dx inj by (simp add: distinct_map)
  have "set (map phi xs) = phi ` (set (map w_country (table_rows t)) \<times> set (year_columns t))"
    using sx by simp
  also have "\<dots> = set (map w_country (table_rows t)) \<times> pd_to_numeric_str ` set (year_columns t)"
    unfolding phi_def by force
  also have "\<dots> = {Some ''Afghanistan'', Some ''Albania'', Some ''Algeria''}
        \<times> {Fin 1990, Fin 1991, Fin 1992}"
    unfolding rows cols using scenario_years by simp
  finally have "set (map phi xs) = {Some ''Afghanistan'', Some ''Albania'', Some ''Algeria''}
        \<times> {Fin 1990, Fin 1991, Fin 1992}" .
  then show ?thesis using len dist unfolding eq by simp
qed

lemma year_in_scenario_range:
  "y \<in> {Fin 1990, Fin 1991, Fin 1992} \<Longrightarrow> float_le min_year y \<and> float_le y max_year"
  by (auto simp: min_year_def max_year_def)

lemma keys_in_range:
  assumes "set (map (\<lambda>r. (t_country r, t_year r)) ts) = C \<times> {Fin 1990, Fin 1991, Fin 1992}"
  shows "year_filter ts = ts"
proof -
  have "float_le min_year (t_year r) \<and> float_le (t_year r) max_year" if "r \<in> set ts" for r
  proof -
    have "(t_country r, t_year r) \<in> set (map (\<lambda>r. (t_country r, t_year r)) ts)"
      using that by force
    then have "t_year r \<in> {Fin 1990, Fin 1991, Fin 1992}" unfolding assms by blast
    then show ?thesis by (rule year_in_scenario_range)
  qed
  then show ?thesis by (simp add: year_filter_def)
qed

lemma valid_parsed_Inr: "valid_parsed c \<Longrightarrow> \<exists>v. parse_number c = Inr v \<and> float_less (Fin 0) v"
  by (cases "parse_number c") (auto simp: valid_parsed_def)

lemma scenario_tidy_parsed:
  assumes sc: "scenario_table t" and valid: "all_cells valid_parsed t"
  shows "\<exists>ts. tidy_parsed t = Inr ts \<and> length ts = 9
    \<and> distinct (map (\<lambda>r. (t_country r, t_year r)) ts)
    \<and> set (map (\<lambda>r. (t_country r, t_year r)) ts)
        = {Some ''Afghanistan'', Some ''Albania'', Some ''Algeria''}
            \<times> {Fin 1990, Fin 1991, Fin 1992}
    \<and> (\<forall>r \<in> set ts. float_less (Fin 0) (t_value r))
    \<and> year_filter ts = ts"
proof -
  define ms where "ms = melt (ffill t)"
  have wf: "wf_table t" using sc by (simp add: scenario_table_def)
  have v: "\<forall>r \<in> set (table_rows t). \<forall>c \<in> set (w_cells r). valid_parsed c"
    using valid by (simp add: all_cells_def list_all_iff)
  then have "\<forall>r \<in> set (table_rows t). \<forall>c \<in> set (w_cells r). \<not> is_missing c"
    using valid_parsed_not_missing by blast
  then have ff: "ffill t = t" by (rule ffill_no_missing)
  have mv: "valid_parsed (r_value m)" if "m \<in> set ms" for m
    using melt_value_in_cells [OF wf] that v unfolding ms_def ff by blast
  then have "\<forall>c \<in> set (map r_value ms). \<exists>v. parse_number c = Inr v"
    using valid_parsed_Inr by fastforce
  then obtain vs where vs: "apply_parse_number (map r_value ms) = Inr vs"
    using apply_parse_number_total by blast
  define ts where "ts = map2 tidy_record_of ms vs"
  have tp: "tidy_parsed t = Inr ts"
    using vs by (simp add: tidy_parsed_def ts_def ms_def)
  note T = tidy_parsed_Inr [OF tp, folded ms_def]
  have len: "length ts = length ms" using T by (metis length_map)
  have keys: "map (\<lambda>r. (t_country r, t_year r)) ts
      = map (\<lambda>m. (r_country m, pd_to_numeric_str (r_year m))) ms"
    using T by (simp add: map_pair_zip)
  have pos: "float_less (Fin 0) (t_value r)" if rin: "r \<in> set ts" for r
  proof -
    obtain k where k: "k < length ts" "ts ! k = r" using rin by (auto simp: in_set_conv_nth)
    have "parse_number (r_value (ms ! k)) = Inr (t_value (ts ! k))"
      using nth_tidy_parsed [OF tp] k(1) len unfolding ms_def by simp
    moreover have "valid_parsed (r_value (ms ! k))" using mv k(1) len by simp
    ultimately show ?thesis using k(2) by (simp add: valid_parsed_def)
  qed
  note K = scenario_melt_keys [OF sc, folded ms_def]
  have ks: "set (map (\<lambda>r. (t_country r, t_year r)) ts)
        = {Some ''Afghanistan'', Some ''Albania'', Some ''Algeria''}
            \<times> {Fin 1990, Fin 1991, Fin 1992}"
    unfolding keys using K by blast
  have "length ts = 9" using len K by simp
  moreover have "distinct (map (\<lambda>r. (t_country r, t_year r)) ts)"
    unfolding keys using K by blast
  moreover have "year_filter ts = ts" using ks by (rule keys_in_range)
  ultimately show ?thesis using tp ks pos by blast
qed

lemma scenario_tidy_coerced:
  assumes sc: "scenario_table t" and valid: "all_cells valid_coerced t"
  shows "length (tidy_coerced t) = 9
    \<and> distinct (map (\<lambda>r. (t_country r, t_year r)) (tidy_coerced t))
    \<and> set (map (\<lambda>r. (t_country r, t_year r)) (tidy_coerced t))
        = {Some ''Afghanistan'', Some ''Albania'', Some ''Algeria''}
            \<times> {Fin 1990, Fin 1991, Fin 1992}
    \<and> (\<forall>r \<in> set (tidy_coerced t). float_less (Fin 0) (t_value r))
    \<and> year_filter (tidy_coerced t) = tidy_coerced t"
proof -
  define ms where "ms = melt (ffill t)"
  define ts where "ts = tidy_coerced t"
  have wf: "wf_table t" using sc by (simp add: scenario_table_def)
  have v: "\<forall>r \<in> set (table_rows t). \<forall>c \<in> set (w_cells r). valid_coerced c"
    using valid by (simp add: all_cells_def list_all_iff)
  then have "\<forall>r \<in> set (table_rows t). \<forall>c \<in> set (w_cells r). \<not> is_missing c"
    using valid_coerced_not_missing by blast
  then have ff: "ffill t = t" by (rule ffill_no_missing)
  have mv: "valid_coerced (r_value m)" if "m \<in> set ms" for m
    using melt_value_in_cells [OF wf] that v unfolding ms_def ff by blast
  have tsdef: "ts = map (\<lambda>m. tidy_record_of m (pd_to_numeric (r_value m))) ms"
    by (simp add: ts_def tidy_coerced_def ms_def)
  have keys: "map (\<lambda>r. (t_country r, t_year r)) ts
      = map (\<lambda>m. (r_country m, pd_to_numeric_str (r_year m))) ms"
    by (simp add: tsdef tidy_record_of_def)
  have pos: "\<forall>r \<in> set ts. float_less (Fin 0) (t_value r)"
    using mv by (auto simp: tsdef tidy_record_of_def valid_coerced_def)
  note K = scenario_melt_keys [OF sc, folded ms_def]
  have ks: "set (map (\<lambda>r. (t_country r, t_year r)) ts)
        = {Some ''Afghanistan'', Some ''Albania'', Some ''Algeria''}
            \<times> {Fin 1990, Fin 1991, Fin 1992}"
    unfolding keys using K by blast
  have "length ts = 9" using K by (simp add: tsdef)
  moreover have "distinct (map (\<lambda>r. (t_country r, t_year r)) ts)"
    unfolding keys using K by blast
  moreover have "year_filter ts = ts" using ks by (rule keys_in_range)
  ultimately show ?thesis using ks pos unfolding ts_def by blast
qed

lemma positive_not_nan: "float_less (Fin 0) x \<Longrightarrow> x \<noteq> NaN"
  by auto

lemma py_trunc_scenario:
  "py_trunc 1990 = 1990 \<and> py_trunc 1991 = 1991 \<and> py_trunc 1992 = 1992"
  by (simp add: py_trunc_def)

lemma astype_int_keys:
  "astype_int ms = Inr rs \<Longrightarrow>
     length rs = length ms
     \<and> (\<forall>k < length ms. \<exists>y. f_year (ms ! k) = Fin y \<and> rs ! k = final_of (ms ! k) y)"
proof (induction ms arbitrary: rs)
  case Nil
  then show ?case by simp
next
  case (Cons m ms)
  then obtain y rs' where y: "f_year m = Fin y" and r: "astype_int ms = Inr rs'"
    and rs: "rs = final_of m y # rs'"
    by (auto split: pyfloat.splits sum.splits)
  have ih: "length rs' = length ms
     \<and> (\<forall>k < length ms. \<exists>y. f_year (ms ! k) = Fin y \<and> rs' ! k = final_of (ms ! k) y)"
    using Cons.IH [OF r] .
  have "\<exists>y. f_year ((m # ms) ! k) = Fin y \<and> rs ! k = final_of ((m # ms) ! k) y"
    if "k < length (m # ms)" for k
    using that y rs ih by (cases k) auto
  then show ?case using ih rs by simp
qed

text \<open>
  C6. Three tables for Afghanistan, Albania and Algeria over 1990, 1991 and 1992, all
  cells valid and positive: the pipeline returns exactly 9 records, one for each
  country and year, with the three numbers positive and the year among 1990, 1991
  and 1992.
\<close>

theorem end_to_end_scenario:
  assumes pop: "scenario_table pop" "all_cells valid_parsed pop"
    and life: "scenario_table life" "all_cells valid_coerced life"
    and gni: "scenario_table gni" "all_cells valid_parsed gni"
  shows "\<exists>rs. load_and_process_data pop life gni = Inr rs \<and> length rs = 9
    \<and> distinct (map (\<lambda>r. (country r, year r)) rs)
    \<and> set (map (\<lambda>r. (country r, year r)) rs)
        = {Some ''Afghanistan'', Some ''Albania'', Some ''Algeria''} \<times> {1990, 1991, 1992}
    \<and> (\<forall>r \<in> set rs. float_less (Fin 0) (population r) \<and> float_less (Fin 0) (life_expectancy r)
          \<and> float_less (Fin 0) (gni_per_capita r) \<and> year r \<in> {1990, 1991, 1992})"
proof -
  define C where "C = {Some ''Afghanistan'', Some ''Albania'', Some ''Algeria''}"
  define Y where "Y = {Fin 1990, Fin 1991, Fin 1992}"
  obtain P where P: "tidy_parsed pop = Inr P" "length P = 9"
    "set (map (\<lambda>r. (t_country r, t_year r)) P) = C \<times> Y"
    "\<forall>r \<in> set P. float_less (Fin 0) (t_value r)" "year_filter P = P"
    using scenario_tidy_parsed [OF pop] unfolding C_def Y_def by blast
  obtain G where G: "tidy_parsed gni = Inr G" "distinct (map (\<lambda>r. (t_country r, t_year r)) G)"
    "set (map (\<lambda>r. (t_country r, t_year r)) G) = C \<times> Y"
    "\<forall>r \<in> set G. float_less (Fin 0) (t_value r)" "year_filter G = G"
    using scenario_tidy_parsed [OF gni] unfolding C_def Y_def by blast
  define L where "L = tidy_coerced life"
  have L: "distinct (map (\<lambda>r. (t_country r, t_year r)) L)"
    "set (map (\<lambda>r. (t_country r, t_year r)) L) = C \<times> Y"
    "\<forall>r \<in> set L. float_less (Fin 0) (t_value r)" "year_filter L = L"
    using scenario_tidy_coerced [OF life] unfolding C_def Y_def L_def by blast+
  define M1 where "M1 = merge1 P L"
  define M where "M = merge2 M1 G"
  have pk: "(t_country p, t_year p) \<in> C \<times> Y" if "p \<in> set P" for p
  proof -
    have "(t_country p, t_year p) \<in> set (map (\<lambda>r. (t_country r, t_year r)) P)"
      using that by force
    then show ?thesis unfolding P(3) .
  qed
  have "\<forall>p \<in> set P. (t_country p, t_year p) \<in> (\<lambda>l. (t_country l, t_year l)) ` set L"
    using pk L(2) by simp
  then have len1: "length M1 = 9"
    unfolding M1_def using merge1_length [OF L(1)] P(2) by simp
  have m1: "(m_country m, m_year m) \<in> C \<times> Y \<and> float_less (Fin 0) (m_population m)
      \<and> float_less (Fin 0) (m_life_expectancy m)" if min: "m \<in> set M1" for m
  proof -
    obtain p l where "p \<in> set P" "l \<in> set L"
      "m = \<lparr>m_country = t_country p, m_year = t_year p, m_population = t_value p,
            m_life_expectancy = t_value l\<rparr>"
      using min unfolding M1_def set_merge1 by blast
    then show ?thesis using pk P(4) L(3) by simp
  qed
  then have "\<forall>m \<in> set M1. (m_country m, m_year m) \<in> (\<lambda>g. (t_country g, t_year g)) ` set G"
    using G(3) by simp
  then have len: "length M = 9"
    unfolding M_def using merge2_length [OF G(2)] len1 by simp
  have mf: "(f_country f, f_year f) \<in> C \<times> Y \<and> float_less (Fin 0) (f_population f)
      \<and> float_less (Fin 0) (f_life_expectancy f) \<and> float_less (Fin 0) (f_gni_per_capita f)"
    if fin: "f \<in> set M" for f
  proof -
    obtain m g where "m \<in> set M1" "g \<in> set G"
      "f = \<lparr>f_country = m_country m, f_year = m_year m, f_population = m_population m,
            f_life_expectancy = m_life_expectancy m, f_gni_per_capita = t_value g\<rparr>"
      using fin unfolding M_def set_merge2 by blast
    then show ?thesis using m1 G(4) by simp
  qed
  have nn: "f_country f \<noteq> None \<and> f_year f \<noteq> NaN \<and> f_population f \<noteq> NaN
      \<and> f_life_expectancy f \<noteq> NaN \<and> f_gni_per_capita f \<noteq> NaN
      \<and> (\<exists>y. f_year f = Fin y)" if fin: "f \<in> set M" for f
  proof -
    note h = mf [OF fin]
    have "f_country f \<in> C" "f_year f \<in> Y" using h by auto
    then have "f_country f \<noteq> None" "f_year f \<noteq> NaN" "\<exists>y. f_year f = Fin y"
      by (auto simp: C_def Y_def)
    moreover have "f_population f \<noteq> NaN" "f_life_expectancy f \<noteq> NaN"
      "f_gni_per_capita f \<noteq> NaN"
      using h positive_not_nan by blast+
    ultimately show ?thesis by blast
  qed
  have dn: "dropna M = M" using nn by (simp add: dropna_def)
  have pf: "positive_filter M = M" using mf by (simp add: positive_filter_def)
  have "\<forall>f \<in> set M. \<exists>y. f_year f = Fin y" using nn by blast
  then obtain rs where rs: "astype_int M = Inr rs" using astype_int_total by blast
  have run: "load_and_process_data pop life gni = Inr rs"
    using P(1,5) G(1,5) L(4) rs dn pf
    by (simp add: load_and_process_data_def Let_def L_def [symmetric] M1_def [symmetric]
        M_def [symmetric])
  note A = astype_int_keys [OF rs]
  have lrs: "length rs = 9" using A len by simp
  have each: "(country r, year r) \<in> C \<times> {1990, 1991, 1992}
      \<and> float_less (Fin 0) (population r) \<and> float_less (Fin 0) (life_expectancy r)
      \<and> float_less (Fin 0) (gni_per_capita r)" if rin: "r \<in> set rs" for r
  proof -
    obtain f y where f: "f \<in> set M" "f_year f = Fin y" "r = final_of f y"
      using astype_int_sound [OF rs rin] by blast
    have "y \<in> {1990, 1991, 1992}" using mf [OF f(1)] f(2) by (auto simp: Y_def)
    then have "py_trunc y \<in> {1990, 1991, 1992}" using py_trunc_scenario by auto
    then show ?thesis using mf [OF f(1)] f(3) by (simp add: final_of_def)
  qed
  have sub: "set (map (\<lambda>r. (country r, year r)) rs) \<subseteq> C \<times> {1990, 1991, 1992}"
    using each by auto
  have sup: "C \<times> {1990, 1991, 1992} \<subseteq> set (map (\<lambda>r. (country r, year r)) rs)"
  proof
    fix x assume "x \<in> C \<times> {1990, 1991, (1992::int)}"
    then obtain c n where x: "x = (Some c, n)" "Some c \<in> C" "n \<in> {1990, 1991, 1992}"
      by (auto simp: C_def)
    define y :: rat where "y = of_int n"
    have y: "Fin y \<in> Y" "py_trunc y = n" "1990 \<le> y" "y \<le> 2023"
      using x(3) py_trunc_scenario by (auto simp: y_def Y_def)
    have "(Some c, Fin y) \<in> set (map (\<lambda>r. (t_country r, t_year r)) P)"
      unfolding P(3) using x(2) y(1) by simp
    then obtain p where p: "p \<in> set P" "t_country p = Some c" "t_year p = Fin y" by auto
    have "(Some c, Fin y) \<in> set (map (\<lambda>r. (t_country r, t_year r)) L)"
      unfolding L(2) using x(2) y(1) by simp
    then obtain l where l: "l \<in> set L" "t_country l = Some c" "t_year l = Fin y" by auto
    have "(Some c, Fin y) \<in> set (map (\<lambda>r. (t_country r, t_year r)) G)"
      unfolding G(3) using x(2) y(1) by simp
    then obtain g where g: "g \<in> set G" "t_country g = Some c" "t_year g = Fin y" by auto
    have "\<lparr>country = Some c, year = py_trunc y, population = t_value p,
          life_expectancy = t_value l, gni_per_capita = t_value g\<rparr> \<in> set rs"
      using join_complete [OF P(1) G(1) run p(1) l(1) [unfolded L_def] g(1) p(2) l(2) g(2)
          p(3) l(3) g(3) y(3,4)] P(4) L(3) G(4) p(1) l(1) g(1)
      by blast
    then show "x \<in> set (map (\<lambda>r. (country r, year r)) rs)"
      using x(1) y(2) by force
  qed
  have keyset: "set (map (\<lambda>r. (country r, year r)) rs) = C \<times> {1990, 1991, 1992}"
    using sub sup by blast
  have "card (C \<times> {1990, 1991, (1992::int)}) = 9"
    by (simp add: C_def card_cartesian_product)
  then have "card (set (map (\<lambda>r. (country r, year r)) rs))
      = length (map (\<lambda>r. (country r, year r)) rs)"
    using keyset lrs by simp
  then have dist: "distinct (map (\<lambda>r. (country r, year r)) rs)" by (rule card_distinct)
  show ?thesis
    using run lrs dist keyset each unfolding C_def by auto
qed

lemma scenario_tables_valid:
  "scenario_table scenario_population \<and> all_cells valid_parsed scenario_population
   \<and> scenario_table scenario_life \<and> all_cells valid_coerced scenario_life
   \<and> scenario_table scenario_gni \<and> all_cells valid_parsed scenario_gni"
  by code_simp

theorem end_to_end_scenario_witness:
  "scenario_table scenario_population \<and> all_cells valid_parsed scenario_population
   \<and> scenario_table scenario_life \<and> all_cells valid_coerced scenario_life
   \<and> scenario_table scenario_gni \<and> all_cells valid_parsed scenario_gni
   \<and> (\<exists>rs. load_and_process_data scenario_population scenario_life scenario_gni = Inr rs
        \<and> length rs = 9
        \<and> distinct (map (\<lambda>r. (country r, year r)) rs)
        \<and> set (map (\<lambda>r. (country r, year r)) rs)
            = {Some ''Afghanistan'', Some ''Albania'', Some ''Algeria''} \<times> {1990, 1991, 1992}
        \<and> (\<forall>r \<in> set rs. float_less (Fin 0) (population r)
              \<and> float_less (Fin 0) (life_expectancy r)
              \<and> float_less (Fin 0) (gni_per_capita r) \<and> year r \<in> {1990, 1991, 1992}))"
proof -
  note v = scenario_tables_valid
  have "\<exists>rs. load_and_process_data scenario_population scenario_life scenario_gni = Inr rs
        \<and> length rs = 9
        \<and> distinct (map (\<lambda>r. (country r, year r)) rs)
        \<and> set (map (\<lambda>r. (country r, year r)) rs)
            = {Some ''Afghanistan'', Some ''Albania'', Some ''Algeria''} \<times> {1990, 1991, 1992}
        \<and> (\<forall>r \<in> set rs. float_less (Fin 0) (population r)
              \<and> float_less (Fin 0) (life_expectancy r)
              \<and> float_less (Fin 0) (gni_per_capita r) \<and> year r \<in> {1990, 1991, 1992})"
    using v by (intro end_to_end_scenario) simp_all
  then show ?thesis using v by simp
qed

end
